theory Spec2Isabelle
  imports Main
begin

text \<open>
  This theory embeds three parts of the dotfile installer: the \<^verbatim>\<open>Context\<close> and the
  \<^verbatim>\<open>Dispatcher\<close>, which route the directives of a task list to plugins, and the
  \<^verbatim>\<open>Link\<close> plugin, which reconciles symbolic and hard links with the file system.
  Definitions carry the names of the source; a method \<^verbatim>\<open>_m\<close> of class \<^verbatim>\<open>Link\<close> is
  \<open>Link_m\<close>. State is passed explicitly and returned updated.
\<close>

section \<open>Configuration data\<close>

text \<open>
  A task list is the parsed YAML/JSON configuration. The dispatcher receives it untyped
  (\<^verbatim>\<open>unknown[]\<close>), so it is modelled as a JSON value. An object is the list of its
  entries in the order \<^verbatim>\<open>Object.entries\<close> enumerates them.
\<close>

datatype json =
    JNull
  | JBool bool
  | JNum int
  | JStr string
  | JArr "json list"
  | JObj "(string \<times> json) list"

text \<open>\<^verbatim>\<open>typeof v === "object" && v !== null\<close>: arrays are objects too.\<close>

fun is_object :: "json \<Rightarrow> bool" where
  "is_object (JArr _) = True"
| "is_object (JObj _) = True"
| "is_object _ = False"

text \<open>Decimal rendering of an array index, as \<^verbatim>\<open>Object.entries\<close> of an array yields it.\<close>

function string_of_nat :: "nat \<Rightarrow> string" where
  "string_of_nat n =
     (if n < 10 then [''0123456789'' ! n]
      else string_of_nat (n div 10) @ [''0123456789'' ! (n mod 10)])"
  by pat_completeness auto
termination
  by (relation "measure id") auto

fun entries :: "json \<Rightarrow> (string \<times> json) list" where
  "entries (JObj kvs) = kvs"
| "entries (JArr xs) = zip (map string_of_nat [0..<length xs]) xs"
| "entries _ = []"

section \<open>Messenger\<close>

datatype level = Debug | Info | Action | Warning | Error

type_synonym logline = "level \<times> string"

section \<open>Context\<close>

text \<open>
  The fields of class \<^verbatim>\<open>Context\<close>: \<^verbatim>\<open>_baseDirectory\<close>, \<^verbatim>\<open>_defaults\<close> and the
  \<^verbatim>\<open>dryRun\<close> entry of \<^verbatim>\<open>_options\<close> (optional in \<^verbatim>\<open>CLIOptions\<close>).
\<close>

record Context =
  f_baseDirectory :: string
  f_defaults :: json
  f_options_dryRun :: "bool option"

definition setBaseDirectory :: "string \<Rightarrow> Context \<Rightarrow> Context" where
  "setBaseDirectory baseDirectory ctx = ctx\<lparr>f_baseDirectory := baseDirectory\<rparr>"

definition setDefaults :: "json \<Rightarrow> Context \<Rightarrow> Context" where
  "setDefaults defaults ctx = ctx\<lparr>f_defaults := defaults\<rparr>"

definition defaults :: "Context \<Rightarrow> json" where
  "defaults ctx = f_defaults ctx"

text \<open>\<^verbatim>\<open>Boolean(this._options.dryRun)\<close>: an absent flag is false.\<close>

definition dryRun :: "Context \<Rightarrow> bool" where
  "dryRun ctx = (case f_options_dryRun ctx of None \<Rightarrow> False | Some b \<Rightarrow> b)"

section \<open>Plugins\<close>

text \<open>
  A handler either returns a boolean or throws; the message of the thrown error is kept
  because the dispatcher logs it. A plugin instance is modelled by its capability
  contract: the class name, the static flag \<^verbatim>\<open>supportsDryRun\<close>, \<^verbatim>\<open>canHandle\<close> and
  \<^verbatim>\<open>handle\<close>. A handler reads the context it was constructed with and acts on the
  outside world \<open>'w\<close>, which it returns updated.
\<close>

datatype outcome = Returned bool | Threw string

record 'w plugin =
  plugin_name :: string
  supportsDryRun :: bool
  canHandle :: "string \<Rightarrow> bool"
  handle :: "Context \<Rightarrow> string \<Rightarrow> json \<Rightarrow> 'w \<Rightarrow> outcome \<times> 'w"

section \<open>Dispatcher\<close>

text \<open>
  The immutable fields of a \<^verbatim>\<open>Dispatcher\<close> (\<^verbatim>\<open>_only\<close>, \<^verbatim>\<open>_skip\<close>, \<^verbatim>\<open>_exit\<close>,
  \<^verbatim>\<open>_dryRun\<close>) together with the two library functions the dispatch loop calls:
  \<^verbatim>\<open>loadPlugins\<close> (a dynamic module import; \<open>Inl\<close> is the message of the error it
  throws) and JavaScript's \<^verbatim>\<open>String(v)\<close> conversion.
\<close>

record 'w dispatcher =
  f_only :: "string list option"
  f_skip :: "string list option"
  f_exit :: bool
  f_dryRun :: bool
  loadPlugins :: "string \<Rightarrow> 'w \<Rightarrow> (string + 'w plugin list) \<times> 'w"
  js_String :: "json \<Rightarrow> string"

text \<open>
  What changes while \<^verbatim>\<open>dispatch\<close> runs: the context, the plugin list
  \<^verbatim>\<open>_plugins\<close>, the messenger's output, the local variable \<^verbatim>\<open>success\<close> and the
  outside world.
\<close>

record 'w dstate =
  f_context :: Context
  f_plugins :: "'w plugin list"
  f_log :: "logline list"
  f_success :: bool
  world :: 'w

definition say :: "level \<Rightarrow> string \<Rightarrow> 'w dstate \<Rightarrow> 'w dstate" where
  "say lvl msg st = st\<lparr>f_log := f_log st @ [(lvl, msg)]\<rparr>"

text \<open>
  A loop body either falls through to the next iteration or executes
  \<^verbatim>\<open>return false\<close>, which leaves \<^verbatim>\<open>dispatch\<close> at once.
\<close>

datatype 'a flow = Continue 'a | Return_false 'a

fun flow_state :: "'a flow \<Rightarrow> 'a" where
  "flow_state (Continue s) = s"
| "flow_state (Return_false s) = s"

text \<open>The filter of lines 81--84: \<^verbatim>\<open>--only\<close> and \<^verbatim>\<open>--except\<close>.\<close>

definition filtered_out :: "'w dispatcher \<Rightarrow> string \<Rightarrow> bool" where
  "filtered_out d action =
     ((case f_only d of None \<Rightarrow> False | Some names \<Rightarrow> action \<notin> set names) \<or>
      (case f_skip d of None \<Rightarrow> False | Some names \<Rightarrow> action \<in> set names))"

text \<open>Lines 107--124: one \<^verbatim>\<open>loadPlugins\<close> call per referenced path.\<close>

fun load_each :: "'w dispatcher \<Rightarrow> json list \<Rightarrow> 'w dstate \<Rightarrow> 'w dstate" where
  "load_each d [] st = st"
| "load_each d (pluginPath # rest) st =
     (case loadPlugins d (js_String d pluginPath) (world st) of
        (Inr newPlugins, w) \<Rightarrow>
          load_each d rest (st\<lparr>world := w, f_plugins := f_plugins st @ newPlugins\<rparr>)
      | (Inl msg, w) \<Rightarrow>
          load_each d rest
            ((say Debug msg
               (say Warning (''Failed to load plugin '' @ [CHR 0x27] @ js_String d pluginPath @ [CHR 0x27])
                 (st\<lparr>world := w\<rparr>)))\<lparr>f_success := False\<rparr>))"

text \<open>Lines 101--136: the \<^verbatim>\<open>plugins\<close> directive. The boolean is \<^verbatim>\<open>handled\<close>.\<close>

definition plugins_directive ::
  "'w dispatcher \<Rightarrow> string \<Rightarrow> json \<Rightarrow> bool \<times> 'w dstate \<Rightarrow> (bool \<times> 'w dstate) flow" where
  "plugins_directive d action data hs =
     (case hs of (handled, st) \<Rightarrow>
        if action = ''plugins'' then
          (case data of
             JArr paths \<Rightarrow>
               (let st1 = load_each d paths st in
                if \<not> f_success st1 then
                  (let st2 = say Error ''Some plugins could not be loaded'' st1 in
                   if f_exit d then Return_false (handled, say Error ''Action plugins failed'' st2)
                   else Continue (True, st2))
                else Continue (True, st1))
           | _ \<Rightarrow>
               Continue (True, (say Error ''Plugins directive must be an array'' st)\<lparr>f_success := False\<rparr>))
        else Continue (handled, st))"

text \<open>Lines 139--174: the loop over \<^verbatim>\<open>this._plugins\<close>.\<close>

fun run_plugins ::
  "'w dispatcher \<Rightarrow> string \<Rightarrow> json \<Rightarrow> 'w plugin list \<Rightarrow> bool \<times> 'w dstate \<Rightarrow> (bool \<times> 'w dstate) flow" where
  "run_plugins d action data [] hs = Continue hs"
| "run_plugins d action data (p # ps) (handled, st) =
     (if canHandle p action then
        (if f_dryRun d \<and> \<not> supportsDryRun p then
           run_plugins d action data ps
             (True, say Action (''Skipping dry-run-unaware plugin '' @ plugin_name p) st)
         else
           (case handle p (f_context st) action data (world st) of
              (Returned localSuccess, w) \<Rightarrow>
                if \<not> localSuccess \<and> f_exit d then
                  Return_false (handled, say Error (''Action '' @ action @ '' failed'') (st\<lparr>world := w\<rparr>))
                else
                  run_plugins d action data ps
                    (True, st\<lparr>world := w, f_success := (localSuccess \<and> f_success st)\<rparr>)
            | (Threw msg, w) \<Rightarrow>
                (let st1 = say Debug msg
                             (say Error (''An error was encountered while executing action '' @ action)
                                (st\<lparr>world := w\<rparr>)) in
                 if f_exit d then Return_false (handled, st1)
                 else run_plugins d action data ps (handled, st1\<lparr>f_success := False\<rparr>))))
      else run_plugins d action data ps (handled, st))"

text \<open>Lines 80--183: one directive \<^verbatim>\<open>[action, data]\<close> of a task.\<close>

definition dispatch_action ::
  "'w dispatcher \<Rightarrow> string \<Rightarrow> json \<Rightarrow> 'w dstate \<Rightarrow> 'w dstate flow" where
  "dispatch_action d action data st =
     (if filtered_out d action \<and> action \<noteq> ''defaults'' then
        Continue (say Info (''Skipping action '' @ action) st)
      else
        (let hs0 = (if action = ''defaults''
                    then (True, st\<lparr>f_context := setDefaults data (f_context st)\<rparr>)
                    else (False, st)) in
         case plugins_directive d action data hs0 of
           Return_false (h, s) \<Rightarrow> Return_false s
         | Continue (handled1, st1) \<Rightarrow>
             (case run_plugins d action data (f_plugins st1) (handled1, st1) of
                Return_false (h, s) \<Rightarrow> Return_false s
              | Continue (handled2, st2) \<Rightarrow>
                  if \<not> handled2 then
                    (let st3 = say Error (''Action '' @ action @ '' not handled'') (st2\<lparr>f_success := False\<rparr>) in
                     if f_exit d then Return_false st3 else Continue st3)
                  else Continue st2)))"

text \<open>Line 79: the directives of one task, in enumeration order.\<close>

fun dispatch_entries ::
  "'w dispatcher \<Rightarrow> (string \<times> json) list \<Rightarrow> 'w dstate \<Rightarrow> 'w dstate flow" where
  "dispatch_entries d [] st = Continue st"
| "dispatch_entries d ((action, data) # rest) st =
     (case dispatch_action d action data st of
        Return_false s \<Rightarrow> Return_false s
      | Continue s \<Rightarrow> dispatch_entries d rest s)"

text \<open>Lines 72--185: the loop over the tasks.\<close>

fun dispatch_tasks :: "'w dispatcher \<Rightarrow> json list \<Rightarrow> 'w dstate \<Rightarrow> 'w dstate flow" where
  "dispatch_tasks d [] st = Continue st"
| "dispatch_tasks d (task # rest) st =
     (if \<not> is_object task then
        dispatch_tasks d rest ((say Error ''Invalid task format'' st)\<lparr>f_success := False\<rparr>)
      else
        (case dispatch_entries d (entries task) st of
           Return_false s \<Rightarrow> Return_false s
         | Continue s \<Rightarrow> dispatch_tasks d rest s))"

text \<open>
  \<^verbatim>\<open>dispatch(tasks)\<close>: \<^verbatim>\<open>success\<close> starts as true; the result is the final value of
  \<^verbatim>\<open>success\<close>, or false after a \<^verbatim>\<open>return false\<close>.
\<close>

definition dispatch :: "'w dispatcher \<Rightarrow> json list \<Rightarrow> 'w dstate \<Rightarrow> bool \<times> 'w dstate" where
  "dispatch d tasks st =
     (case dispatch_tasks d tasks (st\<lparr>f_success := True\<rparr>) of
        Continue s \<Rightarrow> (f_success s, s)
      | Return_false s \<Rightarrow> (False, s))"

section \<open>The routing rule in the specification's words\<close>



section \<open>Example values\<close>


definition demo_dispatcher :: "bool \<Rightarrow> bool \<Rightarrow> nat dispatcher" where
  "demo_dispatcher exit dry =
     \<lparr>f_only = None, f_skip = None, f_exit = exit, f_dryRun = dry,
      loadPlugins = (\<lambda>path w. (Inl ''Unable to access path'', w)),
      js_String = (\<lambda>v. case v of JStr s \<Rightarrow> s | _ \<Rightarrow> '''')\<rparr>"

definition demo_state :: "nat plugin list \<Rightarrow> nat dstate" where
  "demo_state ps =
     \<lparr>f_context = \<lparr>f_baseDirectory = ''/d'', f_defaults = JObj [], f_options_dryRun = None\<rparr>,
      f_plugins = ps, f_log = [], f_success = True, world = 0\<rparr>"

section \<open>The platform under the link plugin\<close>

subsection \<open>File system\<close>

text \<open>
  The plugin reaches the file system through Node's \<^verbatim>\<open>fs\<close> module. The model of that
  module: a directory entry is found under a key, the list of path components the kernel
  arrives at for a path string. An entry is a regular file or a directory, each with its
  device and inode number as \<^verbatim>\<open>Stats.dev\<close> and \<^verbatim>\<open>Stats.ino\<close> report them, or a symbolic
  link with its recorded target text. Some entries may be write-protected, so that a
  mutating call on them throws. Every mutating call, successful or not, is appended to a
  journal: an unchanged journal means that no mutating call was made.
\<close>

datatype node = File nat nat | Dir nat nat | Symlink string

type_synonym key = "string list"

datatype fsop =
    Mkdir string
  | Unlink string
  | Rm string
  | RmTree string
  | MkSymlink string string
  | MkLink string string

record fs =
  nodes :: "key \<Rightarrow> node option"
  wprot :: "key \<Rightarrow> bool"
  journal :: "fsop list"

text \<open>
  What the plugin takes from its platform and does not define itself:
  \<^item> \<^verbatim>\<open>process.platform === "win32"\<close>, \<^verbatim>\<open>path.sep\<close> and \<^verbatim>\<open>process.env\<close>;
  \<^item> the functions imported from Node's \<^verbatim>\<open>path\<close> module, which are lexical (they never
    look at the file system; \<^verbatim>\<open>resolve\<close> uses the working directory);
  \<^item> the kernel's path lookup \<open>lookup_key\<close> from a path string to the key of the entry,
    and \<open>follow\<close>, the key a symbolic link at a given key with a given recorded target
    leads to. The lookup does not see the file system: a symbolic link standing in a
    directory position of a path is not followed, and a path with a trailing separator
    is looked up like the path without it (where the kernel would follow a symbolic
    link in the last position);
  \<^item> the device and inode numbers a new directory gets;
  \<^item> the \<^verbatim>\<open>fast-glob\<close> library (\<open>None\<close>: the promise rejects);
  \<^item> \<^verbatim>\<open>shellCommand\<close> of \<^verbatim>\<open>util/common.ts\<close>, which spawns a shell: it returns the exit
    code and may leave the file system changed.
\<close>

record platform =
  win32 :: bool
  sep :: string
  environ :: "string \<Rightarrow> string option"
  path_resolve :: "string \<Rightarrow> string"
  path_join :: "string \<Rightarrow> string \<Rightarrow> string"
  path_normalize :: "string \<Rightarrow> string"
  path_dirname :: "string \<Rightarrow> string"
  path_basename :: "string \<Rightarrow> string"
  path_relative :: "string \<Rightarrow> string \<Rightarrow> string"
  lookup_key :: "string \<Rightarrow> key"
  follow :: "key \<Rightarrow> string \<Rightarrow> key"
  new_dir :: "key \<Rightarrow> nat \<times> nat"
  fast_glob :: "string \<Rightarrow> fs \<Rightarrow> string list option"
  shellCommand :: "string \<Rightarrow> string \<Rightarrow> fs \<Rightarrow> int \<times> fs"

subsubsection \<open>Reading\<close>

definition lstatSync :: "platform \<Rightarrow> fs \<Rightarrow> string \<Rightarrow> node option" where
  "lstatSync e w p = nodes w (lookup_key e p)"

text \<open>
  \<^verbatim>\<open>stat\<close> follows symbolic links; the kernel gives up after 40 of them (ELOOP). \<open>None\<close>
  stands for the error the call throws.
\<close>

fun stat_key :: "platform \<Rightarrow> fs \<Rightarrow> nat \<Rightarrow> key \<Rightarrow> node option" where
  "stat_key e w 0 k = None"
| "stat_key e w (Suc n) k =
     (case nodes w k of
        None \<Rightarrow> None
      | Some (Symlink t) \<Rightarrow> stat_key e w n (follow e k t)
      | Some nd \<Rightarrow> Some nd)"

definition statSync :: "platform \<Rightarrow> fs \<Rightarrow> string \<Rightarrow> node option" where
  "statSync e w p = stat_key e w 40 (lookup_key e p)"

definition existsSync :: "platform \<Rightarrow> fs \<Rightarrow> string \<Rightarrow> bool" where
  "existsSync e w p = (statSync e w p \<noteq> None)"

definition readlinkSync :: "platform \<Rightarrow> fs \<Rightarrow> string \<Rightarrow> string option" where
  "readlinkSync e w p = (case lstatSync e w p of Some (Symlink t) \<Rightarrow> Some t | _ \<Rightarrow> None)"

fun isDirectory :: "node \<Rightarrow> bool" where
  "isDirectory (Dir _ _) = True"
| "isDirectory _ = False"

fun isFile :: "node \<Rightarrow> bool" where
  "isFile (File _ _) = True"
| "isFile _ = False"

fun isSymbolicLink :: "node \<Rightarrow> bool" where
  "isSymbolicLink (Symlink _) = True"
| "isSymbolicLink _ = False"

fun ino :: "node \<Rightarrow> nat" where
  "ino (File d i) = i"
| "ino (Dir d i) = i"
| "ino (Symlink t) = 0"

fun dev :: "node \<Rightarrow> nat" where
  "dev (File d i) = d"
| "dev (Dir d i) = d"
| "dev (Symlink t) = 0"

subsubsection \<open>Mutating\<close>

text \<open>Each call returns whether it completed (\<open>False\<close>: it threw) and the file system.\<close>

definition record_op :: "fsop \<Rightarrow> fs \<Rightarrow> fs" where
  "record_op op w = w\<lparr>journal := journal w @ [op]\<rparr>"

text \<open>The directory a new entry goes into must exist (the root always does).\<close>

definition parent_is_dir :: "platform \<Rightarrow> fs \<Rightarrow> key \<Rightarrow> bool" where
  "parent_is_dir e w k =
     (k \<noteq> [] \<and>
      (butlast k = [] \<or>
       (case stat_key e w 40 (butlast k) of Some nd \<Rightarrow> isDirectory nd | None \<Rightarrow> False)))"

text \<open>\<^verbatim>\<open>unlinkSync(p)\<close>: removes a file or a symbolic link, not a directory.\<close>

definition unlinkSync :: "platform \<Rightarrow> string \<Rightarrow> fs \<Rightarrow> bool \<times> fs" where
  "unlinkSync e p w =
     (let k = lookup_key e p; w1 = record_op (Unlink p) w in
      case nodes w k of
        None \<Rightarrow> (False, w1)
      | Some nd \<Rightarrow>
          if isDirectory nd \<or> wprot w k then (False, w1)
          else (True, w1\<lparr>nodes := (nodes w)(k := None)\<rparr>))"

text \<open>\<^verbatim>\<open>rmSync(p)\<close> without options: as \<^verbatim>\<open>unlinkSync\<close>, it refuses a directory.\<close>

definition rmSync :: "platform \<Rightarrow> string \<Rightarrow> fs \<Rightarrow> bool \<times> fs" where
  "rmSync e p w =
     (let k = lookup_key e p; w1 = record_op (Rm p) w in
      case nodes w k of
        None \<Rightarrow> (False, w1)
      | Some nd \<Rightarrow>
          if isDirectory nd \<or> wprot w k then (False, w1)
          else (True, w1\<lparr>nodes := (nodes w)(k := None)\<rparr>))"

text \<open>
  \<^verbatim>\<open>rmSync(p, { recursive: true, force: true })\<close>: removes the entry and all below it; a
  missing entry is no error.
\<close>

definition rmSync_recursive_force :: "platform \<Rightarrow> string \<Rightarrow> fs \<Rightarrow> bool \<times> fs" where
  "rmSync_recursive_force e p w =
     (let k = lookup_key e p; w1 = record_op (RmTree p) w in
      if nodes w k \<noteq> None \<and> wprot w k then (False, w1)
      else (True, w1\<lparr>nodes := (\<lambda>q. if take (length k) q = k then None else nodes w q)\<rparr>))"

text \<open>\<^verbatim>\<open>symlinkSync(target, p)\<close>: the target text is recorded as given.\<close>

definition symlinkSync :: "platform \<Rightarrow> string \<Rightarrow> string \<Rightarrow> fs \<Rightarrow> bool \<times> fs" where
  "symlinkSync e target p w =
     (let k = lookup_key e p; w1 = record_op (MkSymlink target p) w in
      if nodes w k \<noteq> None \<or> wprot w k \<or> \<not> parent_is_dir e w k then (False, w1)
      else (True, w1\<lparr>nodes := (nodes w)(k \<mapsto> Symlink target)\<rparr>))"

text \<open>
  \<^verbatim>\<open>linkSync(existingPath, newPath)\<close>: a second directory entry for the same inode. The
  existing entry is taken as it is (a symbolic link is not followed); a directory cannot
  be hard-linked.
\<close>

definition linkSync :: "platform \<Rightarrow> string \<Rightarrow> string \<Rightarrow> fs \<Rightarrow> bool \<times> fs" where
  "linkSync e existingPath newPath w =
     (let k = lookup_key e newPath; w1 = record_op (MkLink existingPath newPath) w in
      case nodes w (lookup_key e existingPath) of
        None \<Rightarrow> (False, w1)
      | Some nd \<Rightarrow>
          if isDirectory nd \<or> nodes w k \<noteq> None \<or> wprot w k \<or> \<not> parent_is_dir e w k
          then (False, w1)
          else (True, w1\<lparr>nodes := (nodes w)(k \<mapsto> nd)\<rparr>))"

text \<open>
  \<^verbatim>\<open>mkdirSync(p, { recursive: true })\<close>: creates the directory and every missing
  ancestor. It throws when the path or an ancestor is there and is not a directory, or
  when a directory to be created is write-protected.
\<close>

definition ancestors_and_self :: "key \<Rightarrow> key list" where
  "ancestors_and_self k = map (\<lambda>n. take n k) [1..<Suc (length k)]"

definition blocks_mkdir :: "platform \<Rightarrow> fs \<Rightarrow> key \<Rightarrow> bool" where
  "blocks_mkdir e w q =
     (case nodes w q of
        None \<Rightarrow> wprot w q
      | Some _ \<Rightarrow> (case stat_key e w 40 q of Some nd \<Rightarrow> \<not> isDirectory nd | None \<Rightarrow> True))"

definition mkdirSync_recursive :: "platform \<Rightarrow> string \<Rightarrow> fs \<Rightarrow> bool \<times> fs" where
  "mkdirSync_recursive e p w =
     (let k = lookup_key e p; w1 = record_op (Mkdir p) w in
      if list_ex (blocks_mkdir e w) (ancestors_and_self k) then (False, w1)
      else (True, w1\<lparr>nodes := (\<lambda>q. if q \<noteq> [] \<and> take (length q) k = q \<and> nodes w q = None
                                    then Some (Dir (fst (new_dir e q)) (snd (new_dir e q)))
                                    else nodes w q)\<rparr>))"

subsection \<open>Context.baseDirectory\<close>

text \<open>
  Lines 54--60 of \<^verbatim>\<open>context.ts\<close>. The parameter defaults to true; the model passes it
  explicitly.
\<close>

definition baseDirectory :: "platform \<Rightarrow> Context \<Rightarrow> bool \<Rightarrow> string" where
  "baseDirectory e ctx canonicalPath =
     (if canonicalPath then path_resolve e (f_baseDirectory ctx) else f_baseDirectory ctx)"

text \<open>
  What "resolved through symbolic links" means for a path in this file system, as the
  system call \<^verbatim>\<open>realpath\<close> computes it: the key at which the chain of symbolic links
  starting at the path ends. The repository never calls it; it is the yardstick
  \<open>baseDirectory\<close> is measured against.
\<close>

fun realpath_key :: "platform \<Rightarrow> fs \<Rightarrow> nat \<Rightarrow> key \<Rightarrow> key option" where
  "realpath_key e w 0 k = None"
| "realpath_key e w (Suc n) k =
     (case nodes w k of
        None \<Rightarrow> None
      | Some (Symlink t) \<Rightarrow> realpath_key e w n (follow e k t)
      | Some nd \<Rightarrow> Some k)"

definition realpath :: "platform \<Rightarrow> fs \<Rightarrow> string \<Rightarrow> key option" where
  "realpath e w p = realpath_key e w 40 (lookup_key e p)"

section \<open>The link plugin\<close>

text \<open>
  The plugin is sequential: every \<^verbatim>\<open>await\<close> is waited for in place, so an
  \<^verbatim>\<open>async\<close> method is a function from the file system before to its result and the
  file system after. The messages the plugin logs do not influence what it does or
  returns; they are left out of its model.
\<close>

subsection \<open>Payload\<close>

text \<open>
  \<^verbatim>\<open>interface LinkOptions\<close>: every property is optional. The payload is taken at its
  declared TypeScript types (the casts of lines 57, 91 and 113). For every property but
  \<^verbatim>\<open>if\<close> the plugin treats a null and an absent value alike (\<^verbatim>\<open>??\<close>,
  \<^verbatim>\<open>=== true\<close>, the test of \<^verbatim>\<open>_defaultTarget\<close>), and \<open>None\<close> stands for both. The
  \<^verbatim>\<open>if\<close> test is compared with \<^verbatim>\<open>undefined\<close> alone (line 119), so its three cases are
  kept apart. The \<^verbatim>\<open>type\<close> property is a string, because the plugin validates it at
  run time.
\<close>

datatype optional_string = Undefined | Null | Text string

text \<open>\<^verbatim>\<open>String(v)\<close> for such a value.\<close>

fun String_of :: "optional_string \<Rightarrow> string" where
  "String_of Undefined = ''undefined''"
| "String_of Null = ''null''"
| "String_of (Text t) = t"

record LinkOptions =
  opt_path :: "string option"
  opt_type :: "string option"
  opt_force :: "bool option"
  opt_relink :: "bool option"
  opt_create :: "bool option"
  opt_relative :: "bool option"
  opt_canonicalize :: "bool option"
  opt_canonicalize_path :: "bool option"
  opt_glob :: "bool option"
  opt_prefix :: "string option"
  opt_if :: optional_string
  opt_ignore_missing :: "bool option"
  opt_exclude :: "string list option"

definition no_options :: LinkOptions where
  "no_options =
     \<lparr>opt_path = None, opt_type = None, opt_force = None, opt_relink = None, opt_create = None,
      opt_relative = None, opt_canonicalize = None, opt_canonicalize_path = None, opt_glob = None,
      opt_prefix = None, opt_if = Undefined, opt_ignore_missing = None, opt_exclude = None\<rparr>"

text \<open>
  The value of one entry of a \<^verbatim>\<open>link\<close> payload: a bare target string (or null), or
  an object of options.
\<close>

datatype link_value = Bare "string option" | Extended LinkOptions

subsection \<open>String helpers\<close>

text \<open>
  \<^verbatim>\<open>_expandVars\<close>, lines 526--530: every match of
  \<^verbatim>\<open>/\$\{?([A-Za-z0-9_]+)\}?/g\<close> is replaced by the value of the environment variable, or
  by the empty string. The scanner reads the regular expression left to right: after
  \<^verbatim>\<open>$\<close> and an optional \<^verbatim>\<open>{\<close> it needs at least one name character, takes as many as
  there are, and swallows one closing brace. Where the match fails the text stays.
\<close>

datatype scan = Plain | Dollar | DollarBrace | Name string

definition is_name_char :: "char \<Rightarrow> bool" where
  "is_name_char c =
     (c \<in> set ''ABCDEFGHIJKLMNOPQRSTUVWXYZabcdefghijklmnopqrstuvwxyz0123456789_'')"

definition env_value :: "platform \<Rightarrow> string \<Rightarrow> string" where
  "env_value e name = (case environ e name of None \<Rightarrow> '''' | Some v \<Rightarrow> v)"

fun expand_scan :: "platform \<Rightarrow> scan \<Rightarrow> string \<Rightarrow> string" where
  "expand_scan e Plain [] = []"
| "expand_scan e Dollar [] = ''$''"
| "expand_scan e DollarBrace [] = ''${''"
| "expand_scan e (Name n) [] = env_value e n"
| "expand_scan e Plain (c # cs) =
     (if c = CHR ''$'' then expand_scan e Dollar cs else c # expand_scan e Plain cs)"
| "expand_scan e Dollar (c # cs) =
     (if c = CHR ''{'' then expand_scan e DollarBrace cs
      else if is_name_char c then expand_scan e (Name [c]) cs
      else CHR ''$'' #
        (if c = CHR ''$'' then expand_scan e Dollar cs else c # expand_scan e Plain cs))"
| "expand_scan e DollarBrace (c # cs) =
     (if is_name_char c then expand_scan e (Name [c]) cs
      else ''${'' @
        (if c = CHR ''$'' then expand_scan e Dollar cs else c # expand_scan e Plain cs))"
| "expand_scan e (Name n) (c # cs) =
     (if is_name_char c then expand_scan e (Name (n @ [c])) cs
      else if c = CHR ''}'' then env_value e n @ expand_scan e Plain cs
      else env_value e n @
        (if c = CHR ''$'' then expand_scan e Dollar cs else c # expand_scan e Plain cs))"

definition Link_expandVars :: "platform \<Rightarrow> string \<Rightarrow> string" where
  "Link_expandVars e str = expand_scan e Plain str"

text \<open>
  \<^verbatim>\<open>String.prototype.replace\<close> with a replacement string reads \<^verbatim>\<open>$$\<close>, \<^verbatim>\<open>$&\<close>,
  \<^verbatim>\<open>$`\<close> and \<^verbatim>\<open>$'\<close> in it as patterns; \<^verbatim>\<open>/^~/\<close> has no group, so \<^verbatim>\<open>$1\<close> stays as
  it is. The match is \<^verbatim>\<open>~\<close>, nothing stands before it, \<open>after\<close> stands behind it.
\<close>

fun js_replacement :: "string \<Rightarrow> string \<Rightarrow> string" where
  "js_replacement after [] = []"
| "js_replacement after [c] = [c]"
| "js_replacement after (c # d # r) =
     (if c = CHR ''$'' \<and> d = CHR ''$'' then CHR ''$'' # js_replacement after r
      else if c = CHR ''$'' \<and> d = CHR ''&'' then CHR ''~'' # js_replacement after r
      else if c = CHR ''$'' \<and> d = CHR 0x60 then js_replacement after r
      else if c = CHR ''$'' \<and> d = CHR 0x27 then after @ js_replacement after r
      else c # js_replacement after (d # r))"

text \<open>\<^verbatim>\<open>_expandPath\<close>, lines 532--543.\<close>

definition Link_expandPath :: "platform \<Rightarrow> string \<Rightarrow> string" where
  "Link_expandPath e path =
     (let expanded = Link_expandVars e path in
      if expanded \<noteq> [] \<and> hd expanded = CHR ''~'' then
        (let home = (if env_value e ''HOME'' \<noteq> '''' then env_value e ''HOME''
                     else env_value e ''USERPROFILE'') in
         js_replacement (tl expanded) home @ tl expanded)
      else expanded)"

text \<open>\<^verbatim>\<open>normslash\<close> of \<^verbatim>\<open>util/common.ts\<close>.\<close>

definition normslash :: "platform \<Rightarrow> string \<Rightarrow> string" where
  "normslash e path =
     (if win32 e then map (\<lambda>c. if c = CHR ''/'' then CHR 0x5C else c) path else path)"

text \<open>\<^verbatim>\<open>_defaultTarget\<close>, lines 229--238.\<close>

definition Link_defaultTarget :: "platform \<Rightarrow> string \<Rightarrow> string option \<Rightarrow> string" where
  "Link_defaultTarget e linkName target =
     (case target of
        None \<Rightarrow>
          (let base = path_basename e linkName in
           if base \<noteq> [] \<and> hd base = CHR ''.'' then tl base else base)
      | Some t \<Rightarrow> t)"

text \<open>\<^verbatim>\<open>_hasGlobChars\<close>, lines 240--242.\<close>

definition Link_hasGlobChars :: "string \<Rightarrow> bool" where
  "Link_hasGlobChars path = (\<exists>c \<in> set path. c = CHR ''?'' \<or> c = CHR ''*'' \<or> c = CHR ''['')"

fun str_includes :: "string \<Rightarrow> string \<Rightarrow> bool" where
  "str_includes [] needle = (needle = [])"
| "str_includes (c # cs) needle = (take (length needle) (c # cs) = needle \<or> str_includes cs needle)"

definition endsWith :: "string \<Rightarrow> string \<Rightarrow> bool" where
  "endsWith s suffix = (length suffix \<le> length s \<and> drop (length s - length suffix) s = suffix)"

text \<open>
  \<^verbatim>\<open>_commonPrefix\<close>, lines 510--524, for the two-element array it is called with. The
  source sorts the two strings first; the longest common prefix does not depend on
  their order.
\<close>

fun common_prefix :: "string \<Rightarrow> string \<Rightarrow> string" where
  "common_prefix (a # as) (b # bs) = (if a = b then a # common_prefix as bs else [])"
| "common_prefix _ _ = []"

definition Link_commonPrefix :: "string \<Rightarrow> string \<Rightarrow> string" where
  "Link_commonPrefix p q = common_prefix p q"

subsection \<open>Globbing\<close>

text \<open>\<^verbatim>\<open>_glob\<close>, lines 244--272.\<close>

definition Link_glob :: "platform \<Rightarrow> fs \<Rightarrow> string \<Rightarrow> string list" where
  "Link_glob e w pattern =
     (case fast_glob e pattern w of
        None \<Rightarrow> []
      | Some found0 \<Rightarrow>
          (let found = map (path_normalize e) found0 in
           if str_includes pattern ''**'' \<and> \<not> endsWith pattern (sep e) then
             filter (\<lambda>f. case statSync e w f of Some nd \<Rightarrow> isFile nd | None \<Rightarrow> False) found
           else found))"

text \<open>\<^verbatim>\<open>_createGlobResults\<close>, lines 274--290.\<close>

fun collect_excluded :: "platform \<Rightarrow> fs \<Rightarrow> string list \<Rightarrow> string list \<Rightarrow> string list" where
  "collect_excluded e w exclude [] = exclude"
| "collect_excluded e w exclude (expat # rest) =
     collect_excluded e w (exclude @ Link_glob e w expat) rest"

definition Link_createGlobResults :: "platform \<Rightarrow> fs \<Rightarrow> string \<Rightarrow> string list \<Rightarrow> string list" where
  "Link_createGlobResults e w pattern excludePatterns =
     (let include = Link_glob e w pattern;
          exclude = collect_excluded e w [] excludePatterns;
          excludeSet = set exclude in
      filter (\<lambda>item. item \<notin> excludeSet) include)"

subsection \<open>File tests\<close>

text \<open>\<^verbatim>\<open>_isLink\<close>, \<^verbatim>\<open>_linkTarget\<close>, \<^verbatim>\<open>_exists\<close>, \<^verbatim>\<open>_lexists\<close>: lines 292--322.\<close>

definition Link_isLink :: "platform \<Rightarrow> fs \<Rightarrow> string \<Rightarrow> bool" where
  "Link_isLink e w path =
     (case lstatSync e w (Link_expandPath e path) of
        None \<Rightarrow> False
      | Some stats \<Rightarrow> isSymbolicLink stats)"

text \<open>
  \<^verbatim>\<open>_linkTarget\<close> throws when the path is not a symbolic link (\<open>None\<close>). Its callers
  guard it with \<^verbatim>\<open>_isLink\<close>.
\<close>

definition Link_linkTarget :: "platform \<Rightarrow> fs \<Rightarrow> string \<Rightarrow> string option" where
  "Link_linkTarget e w path =
     (case readlinkSync e w (Link_expandPath e path) of
        None \<Rightarrow> None
      | Some target \<Rightarrow>
          if win32 e \<and> take 4 target = [CHR 0x5C, CHR 0x5C, CHR ''?'', CHR 0x5C]
          then Some (drop 4 target)
          else Some target)"

definition Link_exists :: "platform \<Rightarrow> fs \<Rightarrow> string \<Rightarrow> bool" where
  "Link_exists e w path = existsSync e w (Link_expandPath e path)"

definition Link_lexists :: "platform \<Rightarrow> fs \<Rightarrow> string \<Rightarrow> bool" where
  "Link_lexists e w path = (lstatSync e w (Link_expandPath e path) \<noteq> None)"

text \<open>\<^verbatim>\<open>_relativePath\<close>, lines 413--416.\<close>

definition Link_relativePath :: "platform \<Rightarrow> string \<Rightarrow> string \<Rightarrow> string" where
  "Link_relativePath e target linkName =
     (let linkDir = path_dirname e linkName in path_relative e linkDir target)"

text \<open>\<^verbatim>\<open>_testSuccess\<close>, lines 219--227.\<close>

definition Link_testSuccess :: "platform \<Rightarrow> Context \<Rightarrow> string \<Rightarrow> fs \<Rightarrow> bool \<times> fs" where
  "Link_testSuccess e ctx command w =
     (case shellCommand e command (baseDirectory e ctx True) w of
        (ret, w1) \<Rightarrow> (ret = 0, w1))"

subsection \<open>Create, delete, link\<close>

text \<open>\<^verbatim>\<open>_create\<close>, lines 324--342.\<close>

definition Link_create :: "platform \<Rightarrow> Context \<Rightarrow> string \<Rightarrow> fs \<Rightarrow> bool \<times> fs" where
  "Link_create e ctx path w =
     (let parent = path_resolve e (path_join e (Link_expandPath e path) ''..'') in
      if \<not> Link_exists e w parent then
        (if dryRun ctx then (True, w)
         else mkdirSync_recursive e parent w)
      else (True, w))"

text \<open>
  \<^verbatim>\<open>_delete\<close>, lines 344--411. The result is \<^verbatim>\<open>[removed, success]\<close> and the file
  system. A call that throws inside the \<^verbatim>\<open>try\<close> leaves \<^verbatim>\<open>removed\<close> false and sets
  \<^verbatim>\<open>success\<close> to false.
\<close>

definition Link_delete ::
  "platform \<Rightarrow> Context \<Rightarrow> string \<Rightarrow> string \<Rightarrow> bool \<Rightarrow> bool \<Rightarrow> bool \<Rightarrow> fs \<Rightarrow> (bool \<times> bool) \<times> fs" where
  "Link_delete e ctx target path relative canonicalPath force w =
     (let targetPath = path_join e (baseDirectory e ctx canonicalPath) target;
          fullpath = path_resolve e (Link_expandPath e path) in
      if Link_exists e w path \<and> \<not> Link_isLink e w path \<and>
         path_resolve e fullpath = path_resolve e targetPath
      then ((False, False), w)
      else
        (let effectiveTarget =
               (if relative then Link_relativePath e targetPath fullpath else targetPath);
             shouldRemove =
               ((Link_isLink e w path \<and> Link_linkTarget e w path \<noteq> Some effectiveTarget) \<or>
                (Link_lexists e w path \<and> \<not> Link_isLink e w path)) in
         if shouldRemove then
           (if dryRun ctx then ((True, True), w)
            else if Link_isLink e w fullpath then
              (case unlinkSync e fullpath w of (ok, w1) \<Rightarrow> ((ok, ok), w1))
            else if force then
              (case statSync e w fullpath of
                 None \<Rightarrow> ((False, False), w)
               | Some stats \<Rightarrow>
                   if isDirectory stats
                   then (case rmSync_recursive_force e fullpath w of (ok, w1) \<Rightarrow> ((ok, ok), w1))
                   else (case rmSync e fullpath w of (ok, w1) \<Rightarrow> ((ok, ok), w1)))
            else ((False, True), w))
         else ((False, True), w)))"

text \<open>\<^verbatim>\<open>_link\<close>, lines 418--508.\<close>

definition Link_link ::
  "platform \<Rightarrow> Context \<Rightarrow> string \<Rightarrow> string \<Rightarrow> bool \<Rightarrow> bool \<Rightarrow> bool \<Rightarrow> string \<Rightarrow> bool \<Rightarrow> fs \<Rightarrow> bool \<times> fs" where
  "Link_link e ctx target linkName relative canonicalPath ignoreMissing linkType didDelete w =
     (let linkPath = path_resolve e (Link_expandPath e linkName);
          absoluteTarget = path_join e (baseDirectory e ctx canonicalPath) target;
          targetPath =
            (if relative then Link_relativePath e absoluteTarget linkPath else absoluteTarget) in
      if (\<not> Link_lexists e w linkName \<or> (dryRun ctx \<and> didDelete)) \<and>
         (ignoreMissing \<or> Link_exists e w absoluteTarget)
      then
        (if dryRun ctx then (True, w)
         else if linkType = ''symlink'' then symlinkSync e targetPath linkPath w
         else linkSync e absoluteTarget linkPath w)
      else if \<not> Link_exists e w absoluteTarget then (False, w)
      else if Link_isLink e w linkName then
        (if linkType = ''symlink'' then
           (if Link_linkTarget e w linkName = Some targetPath then (True, w) else (False, w))
         else (False, w))
      else if linkType = ''hardlink'' then
        (case (statSync e w linkPath, statSync e w absoluteTarget) of
           (Some linkStat, Some targetStat) \<Rightarrow>
             if ino linkStat = ino targetStat then (True, w) else (False, w)
         | _ \<Rightarrow> (False, w))
      else (False, w))"

subsection \<open>Option resolution\<close>

text \<open>The local variables of the loop body of \<^verbatim>\<open>_processLinks\<close>, lines 75--87.\<close>

record settings =
  s_relative :: bool
  s_canonicalPath :: bool
  s_linkType :: string
  s_force :: bool
  s_relink :: bool
  s_create :: bool
  s_useGlob :: bool
  s_basePrefix :: string
  s_test :: optional_string
  s_ignoreMissing :: bool
  s_excludePaths :: "string list"
  s_path :: string

text \<open>\<^verbatim>\<open>a ?? b\<close>.\<close>

definition nullish :: "'a option \<Rightarrow> 'a \<Rightarrow> 'a" where
  "nullish a b = (case a of None \<Rightarrow> b | Some v \<Rightarrow> v)"

text \<open>Lines 75--85: the values the directive-level defaults give.\<close>

definition from_defaults :: "LinkOptions \<Rightarrow> settings" where
  "from_defaults d =
     \<lparr>s_relative = (opt_relative d = Some True),
      s_canonicalPath = nullish (opt_canonicalize d) (nullish (opt_canonicalize_path d) True),
      s_linkType = nullish (opt_type d) ''symlink'',
      s_force = (opt_force d = Some True),
      s_relink = (opt_relink d = Some True),
      s_create = (opt_create d = Some True),
      s_useGlob = (opt_glob d = Some True),
      s_basePrefix = nullish (opt_prefix d) '''',
      s_test = opt_if d,
      s_ignoreMissing = (opt_ignore_missing d = Some True),
      s_excludePaths = nullish (opt_exclude d) [],
      s_path = ''''\<rparr>"

text \<open>
  Lines 89--114. \<open>None\<close>: the entry names a link type that is not recognized, and the
  loop continues with \<^verbatim>\<open>success = false\<close>. An empty type string is falsy and leaves the
  default in place.
\<close>

definition entry_settings ::
  "platform \<Rightarrow> LinkOptions \<Rightarrow> string \<Rightarrow> link_value \<Rightarrow> settings option" where
  "entry_settings e d expandedLinkName target =
     (let s = from_defaults d in
      case target of
        Extended opts \<Rightarrow>
          (let targetLinkType = nullish (opt_type opts) '''' in
           if targetLinkType \<noteq> '''' \<and> targetLinkType \<noteq> ''symlink'' \<and> targetLinkType \<noteq> ''hardlink''
           then None
           else Some
             \<lparr>s_relative = nullish (opt_relative opts) (s_relative s),
              s_canonicalPath =
                nullish (opt_canonicalize opts) (nullish (opt_canonicalize_path opts) (s_canonicalPath s)),
              s_linkType = (if targetLinkType \<noteq> '''' then targetLinkType else s_linkType s),
              s_force = nullish (opt_force opts) (s_force s),
              s_relink = nullish (opt_relink opts) (s_relink s),
              s_create = nullish (opt_create opts) (s_create s),
              s_useGlob = nullish (opt_glob opts) (s_useGlob s),
              s_basePrefix = nullish (opt_prefix opts) (s_basePrefix s),
              s_test = (case opt_if opts of Text t \<Rightarrow> Text t | _ \<Rightarrow> s_test s),
              s_ignoreMissing = nullish (opt_ignore_missing opts) (s_ignoreMissing s),
              s_excludePaths = nullish (opt_exclude opts) (s_excludePaths s),
              s_path = Link_defaultTarget e expandedLinkName (opt_path opts)\<rparr>)
      | Bare t \<Rightarrow> Some (s\<lparr>s_path := Link_defaultTarget e expandedLinkName t\<rparr>))"

subsection \<open>Processing the payload\<close>

text \<open>
  Lines 149--170 and again lines 185--206: the delete step, entered when \<^verbatim>\<open>force\<close> or
  \<^verbatim>\<open>relink\<close> is set, then the link step. The result is the conjunction of
  \<^verbatim>\<open>deleteSuccess\<close> and the result of \<^verbatim>\<open>_link\<close>, which the caller folds into
  \<^verbatim>\<open>success\<close>.
\<close>

definition delete_then_link ::
  "platform \<Rightarrow> Context \<Rightarrow> settings \<Rightarrow> string \<Rightarrow> string \<Rightarrow> fs \<Rightarrow> bool \<times> fs" where
  "delete_then_link e ctx s target linkName w =
     (case (if s_force s \<or> s_relink s
            then Link_delete e ctx target linkName (s_relative s) (s_canonicalPath s) (s_force s) w
            else ((False, True), w)) of
        ((didDelete, deleteSuccess), w1) \<Rightarrow>
          (case Link_link e ctx target linkName (s_relative s) (s_canonicalPath s)
                  (s_ignoreMissing s) (s_linkType s) didDelete w1 of
             (linked, w2) \<Rightarrow> (deleteSuccess \<and> linked, w2)))"

text \<open>Lines 131--171: one match of a glob.\<close>

definition glob_link_name :: "platform \<Rightarrow> settings \<Rightarrow> string \<Rightarrow> string \<Rightarrow> string \<Rightarrow> string" where
  "glob_link_name e s expandedLinkName path globFullItem =
     (let commonPrefix = Link_commonPrefix path globFullItem;
          globDirname = path_dirname e commonPrefix;
          globItem = (if length globDirname = 0 then globFullItem
                      else drop (length globDirname + 1) globFullItem);
          finalGlobItem = (if s_basePrefix s \<noteq> '''' then s_basePrefix s @ globItem else globItem) in
      path_join e expandedLinkName finalGlobItem)"

fun process_glob_items ::
  "platform \<Rightarrow> Context \<Rightarrow> settings \<Rightarrow> string \<Rightarrow> string \<Rightarrow> string list \<Rightarrow> bool \<times> fs \<Rightarrow> bool \<times> fs" where
  "process_glob_items e ctx s expandedLinkName path [] sw = sw"
| "process_glob_items e ctx s expandedLinkName path (globFullItem # rest) (success, w) =
     (let globLinkName = glob_link_name e s expandedLinkName path globFullItem in
      case (if s_create s
            then (case Link_create e ctx globLinkName w of (ok, w1) \<Rightarrow> (ok \<and> success, w1))
            else (success, w)) of
        (success1, w1) \<Rightarrow>
          (case delete_then_link e ctx s globFullItem globLinkName w1 of
             (ok, w2) \<Rightarrow>
               process_glob_items e ctx s expandedLinkName path rest (ok \<and> success1, w2)))"

text \<open>Lines 71--208: one entry \<^verbatim>\<open>[linkName, target]\<close> of the payload.\<close>

definition process_entry ::
  "platform \<Rightarrow> Context \<Rightarrow> LinkOptions \<Rightarrow> string \<times> link_value \<Rightarrow> bool \<times> fs \<Rightarrow> bool \<times> fs" where
  "process_entry e ctx d entry sw =
     (case (entry, sw) of ((linkName, target), (success, w)) \<Rightarrow>
        (let expandedLinkName = Link_expandVars e (normslash e linkName) in
         case entry_settings e d expandedLinkName target of
           None \<Rightarrow> (False, w)
         | Some s \<Rightarrow>
             (let path0 = normslash e (s_path s) in
              case (if s_test s \<noteq> Undefined
                    then Link_testSuccess e ctx (String_of (s_test s)) w
                    else (True, w)) of
                (passed, w0) \<Rightarrow>
                  if \<not> passed then (success, w0)
                  else
                    (let path = path_normalize e (Link_expandPath e path0) in
                     if s_useGlob s \<and> Link_hasGlobChars path then
                       process_glob_items e ctx s expandedLinkName path
                         (Link_createGlobResults e w0 path (s_excludePaths s)) (success, w0)
                     else
                       (case (if s_create s
                              then (case Link_create e ctx expandedLinkName w0 of
                                      (ok, w1) \<Rightarrow> (ok \<and> success, w1))
                              else (success, w0)) of
                          (success1, w1) \<Rightarrow>
                            if \<not> s_ignoreMissing s \<and>
                               \<not> Link_exists e w1 (path_join e (baseDirectory e ctx True) path)
                            then (False, w1)
                            else
                              (case delete_then_link e ctx s path expandedLinkName w1 of
                                 (ok, w2) \<Rightarrow> (ok \<and> success1, w2)))))))"

fun process_entries ::
  "platform \<Rightarrow> Context \<Rightarrow> LinkOptions \<Rightarrow> (string \<times> link_value) list \<Rightarrow> bool \<times> fs \<Rightarrow> bool \<times> fs" where
  "process_entries e ctx d [] sw = sw"
| "process_entries e ctx d (entry # rest) sw =
     process_entries e ctx d rest (process_entry e ctx d entry sw)"

text \<open>
  \<^verbatim>\<open>_processLinks\<close>, lines 55--217. \<open>link_defaults\<close> is
  \<^verbatim>\<open>this._context.defaults().link\<close>; \<open>links\<close> is \<open>None\<close> when the payload is not an
  object.
\<close>

definition Link_processLinks ::
  "platform \<Rightarrow> Context \<Rightarrow> LinkOptions option \<Rightarrow> (string \<times> link_value) list option \<Rightarrow> fs \<Rightarrow> bool \<times> fs" where
  "Link_processLinks e ctx link_defaults links w =
     (let d = nullish link_defaults no_options;
          defaultLinkType = nullish (opt_type d) ''symlink'' in
      if defaultLinkType \<noteq> ''symlink'' \<and> defaultLinkType \<noteq> ''hardlink'' then (False, w)
      else
        (case links of
           None \<Rightarrow> (False, w)
         | Some es \<Rightarrow> process_entries e ctx d es (True, w)))"

text \<open>\<^verbatim>\<open>canHandle\<close> and \<^verbatim>\<open>handle\<close>, lines 44--53.\<close>

definition Link_canHandle :: "string \<Rightarrow> bool" where
  "Link_canHandle directive = (directive = ''link'')"

definition Link_handle ::
  "platform \<Rightarrow> Context \<Rightarrow> LinkOptions option \<Rightarrow> string \<Rightarrow> (string \<times> link_value) list option \<Rightarrow> fs \<Rightarrow> outcome \<times> fs" where
  "Link_handle e ctx link_defaults directive data w =
     (if directive \<noteq> ''link'' then (Threw (''Link cannot handle directive '' @ directive), w)
      else (case Link_processLinks e ctx link_defaults data w of (ok, w1) \<Rightarrow> (Returned ok, w1)))"

subsection \<open>The desired target\<close>

text \<open>
  Lines 429--435 of \<^verbatim>\<open>_link\<close> (and lines 352--374 of \<^verbatim>\<open>_delete\<close>, which compute
  the same two values under other names): the absolute path of the target, and the text
  a correct symbolic link records, relative to the link's directory or absolute.
\<close>

definition absolute_target :: "platform \<Rightarrow> Context \<Rightarrow> bool \<Rightarrow> string \<Rightarrow> string" where
  "absolute_target e ctx canonicalPath target =
     path_join e (baseDirectory e ctx canonicalPath) target"

definition link_path :: "platform \<Rightarrow> string \<Rightarrow> string" where
  "link_path e linkName = path_resolve e (Link_expandPath e linkName)"

definition desired_target :: "platform \<Rightarrow> Context \<Rightarrow> bool \<Rightarrow> bool \<Rightarrow> string \<Rightarrow> string \<Rightarrow> string" where
  "desired_target e ctx relative canonicalPath target linkName =
     (if relative
      then Link_relativePath e (absolute_target e ctx canonicalPath target) (link_path e linkName)
      else absolute_target e ctx canonicalPath target)"

subsection \<open>The parts of one entry\<close>

text \<open>
  Three values of the loop body of \<^verbatim>\<open>_processLinks\<close>, under the names the theorems
  use: \<^verbatim>\<open>expandedLinkName\<close> of line 72, the target path after lines 116 and 124, and
  the outcome of the conditional gate of line 119 (true when there is no test).
\<close>

definition entry_link_name :: "platform \<Rightarrow> string \<Rightarrow> string" where
  "entry_link_name e linkName = Link_expandVars e (normslash e linkName)"

definition entry_target :: "platform \<Rightarrow> settings \<Rightarrow> string" where
  "entry_target e s = path_normalize e (Link_expandPath e (normslash e (s_path s)))"

definition entry_test :: "platform \<Rightarrow> Context \<Rightarrow> settings \<Rightarrow> fs \<Rightarrow> bool \<times> fs" where
  "entry_test e ctx s w =
     (if s_test s \<noteq> Undefined
      then Link_testSuccess e ctx (String_of (s_test s)) w
      else (True, w))"

section \<open>A POSIX instance of the platform\<close>

text \<open>
  The theorems about the link plugin hold for every platform. Their instances below are
  computed on this one: lexical path functions in the manner of Node's \<^verbatim>\<open>path.posix\<close>,
  a kernel lookup that splits a path at the separators, a table in place of
  \<^verbatim>\<open>fast-glob\<close>, and a shell whose test commands exit with 0 and change nothing.
\<close>

fun segments_from :: "string \<Rightarrow> string \<Rightarrow> string list" where
  "segments_from cur [] = (if cur = [] then [] else [cur])"
| "segments_from cur (c # cs) =
     (if c = CHR ''/'' then (if cur = [] then segments_from [] cs else cur # segments_from [] cs)
      else segments_from (cur @ [c]) cs)"

definition segments :: "string \<Rightarrow> string list" where
  "segments p = segments_from [] p"

text \<open>Dropping \<^verbatim>\<open>.\<close> and resolving \<^verbatim>\<open>..\<close> below the root; \<open>acc\<close> is reversed.\<close>

fun tidy :: "string list \<Rightarrow> string list \<Rightarrow> string list" where
  "tidy acc [] = rev acc"
| "tidy acc (s # ss) =
     (if s = ''.'' then tidy acc ss
      else if s = ''..'' then tidy (tl acc) ss
      else tidy (s # acc) ss)"

text \<open>The same for a relative path, where leading \<^verbatim>\<open>..\<close> stay.\<close>

fun tidy_relative :: "string list \<Rightarrow> string list \<Rightarrow> string list" where
  "tidy_relative acc [] = rev acc"
| "tidy_relative acc (s # ss) =
     (if s = ''.'' then tidy_relative acc ss
      else if s = ''..'' \<and> acc \<noteq> [] \<and> hd acc \<noteq> ''..'' then tidy_relative (tl acc) ss
      else tidy_relative (s # acc) ss)"

definition is_absolute :: "string \<Rightarrow> bool" where
  "is_absolute p = (p \<noteq> [] \<and> hd p = CHR ''/'')"

text \<open>
  The key of a path: its components below the root, lexically. A trailing separator
  leaves no trace in the key, as said of \<open>lookup_key\<close> above; the instances below use
  no such path.
\<close>

definition posix_key :: "string \<Rightarrow> string \<Rightarrow> key" where
  "posix_key cwd p = tidy [] ((if is_absolute p then [] else segments cwd) @ segments p)"

fun render :: "string list \<Rightarrow> string" where
  "render [] = []"
| "render (s # ss) = CHR ''/'' # s @ render ss"

definition posix_resolve :: "string \<Rightarrow> string \<Rightarrow> string" where
  "posix_resolve cwd p = (let k = posix_key cwd p in if k = [] then ''/'' else render k)"

definition posix_normalize :: "string \<Rightarrow> string" where
  "posix_normalize p =
     (let body = (if is_absolute p then posix_resolve ''/'' p
                  else (let k = tidy_relative [] (segments p) in if k = [] then ''.'' else tl (render k)));
          slash = (p \<noteq> [] \<and> last p = CHR ''/'' \<and> last body \<noteq> CHR ''/'') in
      if slash then body @ ''/'' else body)"

definition posix_join :: "string \<Rightarrow> string \<Rightarrow> string" where
  "posix_join a b =
     posix_normalize (if a = [] then b else if b = [] then a else a @ ''/'' @ b)"

definition strip_slashes :: "string \<Rightarrow> string" where
  "strip_slashes p = rev (dropWhile (\<lambda>c. c = CHR ''/'') (rev p))"

definition posix_dirname :: "string \<Rightarrow> string" where
  "posix_dirname p =
     (let q = strip_slashes p;
          d = strip_slashes (rev (dropWhile (\<lambda>c. c \<noteq> CHR ''/'') (rev q))) in
      if d \<noteq> [] then d else if is_absolute p then ''/'' else ''.'')"

definition posix_basename :: "string \<Rightarrow> string" where
  "posix_basename p = rev (takeWhile (\<lambda>c. c \<noteq> CHR ''/'') (rev (strip_slashes p)))"

definition posix_relative :: "string \<Rightarrow> string \<Rightarrow> string \<Rightarrow> string" where
  "posix_relative cwd from to =
     (let f = posix_key cwd from; t = posix_key cwd to;
          n = length (takeWhile (\<lambda>(a, b). a = b) (zip f t));
          k = replicate (length f - n) ''..'' @ drop n t in
      if k = [] then [] else tl (render k))"

definition posix_follow :: "key \<Rightarrow> string \<Rightarrow> key" where
  "posix_follow k t = tidy [] ((if is_absolute t then [] else butlast k) @ segments t)"

definition posix :: "string \<Rightarrow> (string \<times> string) list \<Rightarrow> (string \<times> string list) list \<Rightarrow> platform" where
  "posix cwd vars globs =
     \<lparr>win32 = False, sep = ''/'', environ = map_of vars,
      path_resolve = posix_resolve cwd, path_join = posix_join,
      path_normalize = posix_normalize, path_dirname = posix_dirname,
      path_basename = posix_basename, path_relative = posix_relative cwd,
      lookup_key = posix_key cwd, follow = posix_follow,
      new_dir = (\<lambda>k. (1, 1000 + length k)),
      fast_glob = (\<lambda>pattern w. map_of globs pattern),
      shellCommand = (\<lambda>command cwd w. (0, w))\<rparr>"

text \<open>A file system given by a table of its entries, with nothing write-protected.\<close>

definition fs_of :: "(key \<times> node) list \<Rightarrow> fs" where
  "fs_of table = \<lparr>nodes = map_of table, wprot = (\<lambda>k. False), journal = []\<rparr>"

definition context_at :: "string \<Rightarrow> bool \<Rightarrow> Context" where
  "context_at base dry =
     \<lparr>f_baseDirectory = base, f_defaults = JObj [], f_options_dryRun = Some dry\<rparr>"

text \<open>
  The scene of the instances: below the root directory (the empty key), the dotfiles
  directory \<^verbatim>\<open>/d\<close> holds the file \<^verbatim>\<open>f\<close> (device 1, inode 7), the home directory is
  \<^verbatim>\<open>/h\<close>, and \<open>extra\<close> is what else is there.
\<close>

definition demo_posix :: platform where
  "demo_posix =
     posix ''/'' [(''HOME'', ''/h'')]
       [(''config/*'', [''config/a'', ''config/private1'', ''config/b'']),
        (''config/private*'', [''config/private1''])]"

definition home_fs :: "(key \<times> node) list \<Rightarrow> fs" where
  "home_fs extra =
     fs_of (extra @ [([], Dir 1 1), ([''d''], Dir 1 2), ([''d'', ''f''], File 1 7), ([''h''], Dir 1 3)])"

text \<open>A shell whose test command exits with 1, as \<^verbatim>\<open>false\<close> does.\<close>

definition failing_shell :: "string \<Rightarrow> string \<Rightarrow> fs \<Rightarrow> int \<times> fs" where
  "failing_shell command cwd w = (1, w)"


section \<open>Properties of the dispatcher\<close>

lemma say_success [simp]: "f_success (say l m st) = f_success st"
  and say_world [simp]: "world (say l m st) = world st"
  and say_context [simp]: "f_context (say l m st) = f_context st"
  and say_plugins [simp]: "f_plugins (say l m st) = f_plugins st"
  by (simp_all add: say_def)

lemma load_each_failed: "\<not> f_success st \<Longrightarrow> \<not> f_success (load_each d ps st)"
  by (induction ps arbitrary: st) (auto split: prod.splits sum.splits)

lemma load_each_context [simp]: "f_context (load_each d ps st) = f_context st"
  by (induction ps arbitrary: st) (auto split: prod.splits sum.splits)

lemma plugins_directive_failed:
  "\<not> f_success st \<Longrightarrow> \<not> f_success (snd (flow_state (plugins_directive d a data (h, st))))"
  by (auto simp: plugins_directive_def Let_def load_each_failed split: if_splits json.splits)

lemma plugins_directive_context:
  "f_context (snd (flow_state (plugins_directive d a data (h, st)))) = f_context st"
  by (auto simp: plugins_directive_def Let_def split: if_splits json.splits)

lemma run_plugins_failed:
  "\<not> f_success st \<Longrightarrow> \<not> f_success (snd (flow_state (run_plugins d a data ps (h, st))))"
proof (induction ps arbitrary: h st)
  case Nil
  then show ?case by simp
next
  case (Cons p ps)
  then show ?case
    by (simp add: Let_def split: prod.splits outcome.splits)
qed

lemma run_plugins_context:
  "f_context (snd (flow_state (run_plugins d a data ps (h, st)))) = f_context st"
proof (induction ps arbitrary: h st)
  case Nil
  then show ?case by simp
next
  case (Cons p ps)
  then show ?case
    by (simp add: Let_def split: prod.splits outcome.splits)
qed

lemma dispatch_action_failed:
  assumes "\<not> f_success st"
  shows "\<not> f_success (flow_state (dispatch_action d a data st))"
proof (cases "filtered_out d a \<and> a \<noteq> ''defaults''")
  case True
  with assms show ?thesis by (simp add: dispatch_action_def)
next
  case False
  define hs0 where "hs0 = (if a = ''defaults''
      then (True, st\<lparr>f_context := setDefaults data (f_context st)\<rparr>) else (False, st))"
  obtain h0 st0 where hs0: "hs0 = (h0, st0)" by (cases hs0)
  have s0: "\<not> f_success st0" using assms hs0 by (auto simp: hs0_def split: if_splits)
  have s1: "\<not> f_success (snd (flow_state (plugins_directive d a data (h0, st0))))"
    using s0 by (rule plugins_directive_failed)
  show ?thesis
  proof (cases "plugins_directive d a data (h0, st0)")
    case (Return_false hs)
    with s1 False hs0 show ?thesis
      by (auto simp: dispatch_action_def Let_def hs0_def[symmetric] split: prod.splits)
  next
    case (Continue hs1)
    obtain h1 st1 where hs1: "hs1 = (h1, st1)" by (cases hs1)
    have s1': "\<not> f_success st1" using s1 Continue hs1 by simp
    have s2: "\<not> f_success (snd (flow_state (run_plugins d a data (f_plugins st1) (h1, st1))))"
      using s1' by (rule run_plugins_failed)
    with False hs0 Continue hs1 show ?thesis
      by (auto simp: dispatch_action_def Let_def hs0_def[symmetric] split: prod.splits flow.splits)
  qed
qed

lemma dispatch_entries_failed:
  "\<not> f_success st \<Longrightarrow> \<not> f_success (flow_state (dispatch_entries d es st))"
proof (induction es arbitrary: st)
  case Nil
  then show ?case by simp
next
  case (Cons e es)
  obtain a data where e: "e = (a, data)" by (cases e)
  have "\<not> f_success (flow_state (dispatch_action d a data st))"
    using Cons.prems by (rule dispatch_action_failed)
  then show ?case
    by (cases "dispatch_action d a data st") (simp_all add: e Cons.IH)
qed

lemma dispatch_tasks_failed:
  "\<not> f_success st \<Longrightarrow> \<not> f_success (flow_state (dispatch_tasks d ts st))"
proof (induction ts arbitrary: st)
  case Nil
  then show ?case by simp
next
  case (Cons t ts)
  have "\<not> f_success (flow_state (dispatch_entries d (entries t) st))"
    using Cons.prems by (rule dispatch_entries_failed)
  then show ?case
    by (cases "dispatch_entries d (entries t) st") (simp_all add: Cons.IH)
qed

lemma dispatch_tasks_append:
  "dispatch_tasks d (xs @ ys) st =
     (case dispatch_tasks d xs st of
        Return_false s \<Rightarrow> Return_false s
      | Continue s \<Rightarrow> dispatch_tasks d ys s)"
  by (induction xs arbitrary: st) (auto split: flow.splits)



text \<open>
  Claim C10. A task-list entry that is not an object (a string, a number, a boolean or
  null) is logged as \<^verbatim>\<open>Invalid task format\<close>, sets \<^verbatim>\<open>success\<close> to false, and the
  loop goes on with the remaining tasks, whatever the exit-on-failure flag says; the run
  as a whole returns false wherever the entry stands in the task list.
\<close>

theorem invalid_task_fails_run:
  assumes "\<not> is_object task"
  shows "dispatch_tasks d (task # rest) st =
           dispatch_tasks d rest ((say Error ''Invalid task format'' st)\<lparr>f_success := False\<rparr>)
         \<and> fst (dispatch d (before @ task # rest) st0) = False"
proof
  show "dispatch_tasks d (task # rest) st =
          dispatch_tasks d rest ((say Error ''Invalid task format'' st)\<lparr>f_success := False\<rparr>)"
    using assms by simp
next
  let ?mark = "\<lambda>s. (say Error ''Invalid task format'' s)\<lparr>f_success := False\<rparr>"
  show "fst (dispatch d (before @ task # rest) st0) = False"
  proof (cases "dispatch_tasks d before (st0\<lparr>f_success := True\<rparr>)")
    case (Return_false s)
    then show ?thesis by (simp add: dispatch_def dispatch_tasks_append)
  next
    case (Continue s)
    have "\<not> f_success (?mark s)" by simp
    then have "\<not> f_success (flow_state (dispatch_tasks d rest (?mark s)))"
      by (rule dispatch_tasks_failed)
    with Continue assms show ?thesis
      by (cases "dispatch_tasks d rest (?mark s)") (simp_all add: dispatch_def dispatch_tasks_append)
  qed
qed

theorem invalid_task_fails_run_witness:
  "\<not> is_object (JStr ''link'')
   \<and> dispatch_tasks (demo_dispatcher True False) (JStr ''link'' # [JObj []]) (demo_state []) =
       Continue ((demo_state [])\<lparr>f_log := [(Error, ''Invalid task format'')], f_success := False\<rparr>)
   \<and> fst (dispatch (demo_dispatcher True False) ([JObj []] @ JStr ''link'' # [JObj []]) (demo_state [])) = False"
  using invalid_task_fails_run[of "JStr ''link''" "demo_dispatcher True False" "[JObj []]" "demo_state []"
      "[JObj []]" "demo_state []"]
  by (simp add: say_def demo_state_def)

text \<open>
  Claim C3. Processing a \<^verbatim>\<open>defaults\<close> directive leaves the context's stored defaults
  equal to the directive's payload, whatever was stored before and whatever the filters,
  the handlers and the exit flag are. So for every directive name in the payload the
  stored option set is exactly the payload's: an option key of an earlier block survives
  only if the later block repeats it. (Names absent from the payload are dropped as
  well.)
\<close>

theorem defaults_replaced:
  "f_defaults (f_context (flow_state (dispatch_action d ''defaults'' data st))) = data"
proof -
  define st0 where "st0 = st\<lparr>f_context := setDefaults data (f_context st)\<rparr>"
  have c0: "f_defaults (f_context st0) = data"
    by (simp add: st0_def setDefaults_def)
  have pd: "plugins_directive d ''defaults'' data (True, st0) = Continue (True, st0)"
    by (simp add: plugins_directive_def)
  have rp: "f_context (snd (flow_state (run_plugins d ''defaults'' data (f_plugins st0) (True, st0))))
              = f_context st0"
    by (rule run_plugins_context)
  have eq: "dispatch_action d ''defaults'' data st =
      (case run_plugins d ''defaults'' data (f_plugins st0) (True, st0) of
         Return_false (h, s) \<Rightarrow> Return_false s
       | Continue (handled2, st2) \<Rightarrow>
           if \<not> handled2 then
             (let st3 = say Error (''Action '' @ ''defaults'' @ '' not handled'') (st2\<lparr>f_success := False\<rparr>) in
              if f_exit d then Return_false st3 else Continue st3)
           else Continue st2)"
    unfolding dispatch_action_def Let_def st0_def[symmetric] by (simp add: pd)
  show ?thesis
  proof (cases "run_plugins d ''defaults'' data (f_plugins st0) (True, st0)")
    case (Continue hs)
    with rp c0 show ?thesis
      by (cases hs) (simp add: eq Let_def)
  next
    case (Return_false hs)
    with rp c0 show ?thesis
      by (cases hs) (simp add: eq)
  qed
qed

theorem defaults_replaced_witness:
  "f_defaults (f_context (flow_state (dispatch_action (demo_dispatcher False False) ''defaults''
       (JObj [(''link'', JObj [(''relink'', JBool True)])])
       ((demo_state [])\<lparr>f_context := \<lparr>f_baseDirectory = ''/d'',
          f_defaults = JObj [(''link'', JObj [(''force'', JBool True)]), (''shell'', JObj [(''stdout'', JBool True)])],
          f_options_dryRun = None\<rparr>\<rparr>))))
     = JObj [(''link'', JObj [(''relink'', JBool True)])]"
  using defaults_replaced[of "demo_dispatcher False False" "JObj [(''link'', JObj [(''relink'', JBool True)])]"]
  by simp




section \<open>Properties of the link plugin\<close>

subsection \<open>Auxiliary facts\<close>

lemma isLink_iff:
  "Link_isLink e w p = (\<exists>t. lstatSync e w (Link_expandPath e p) = Some (Symlink t))"
proof (cases "lstatSync e w (Link_expandPath e p)")
  case None
  then show ?thesis by (simp add: Link_isLink_def)
next
  case (Some nd)
  then show ?thesis by (cases nd) (simp_all add: Link_isLink_def)
qed

lemma isLink_lexists: "Link_isLink e w p \<Longrightarrow> Link_lexists e w p"
  by (auto simp: Link_isLink_def Link_lexists_def split: option.splits)

text \<open>
  The calls of \<^verbatim>\<open>_linkTarget\<close> stand behind a test of \<^verbatim>\<open>_isLink\<close>, where
  \<^verbatim>\<open>readlinkSync\<close> cannot throw.
\<close>

lemma isLink_linkTarget: "Link_isLink e w p \<Longrightarrow> Link_linkTarget e w p \<noteq> None"
  by (cases "lstatSync e w (Link_expandPath e p)")
     (auto simp: Link_isLink_def Link_linkTarget_def readlinkSync_def
           split: option.splits node.splits)

lemma Link_link_unfold:
  "Link_link e ctx target linkName relative canonicalPath ignoreMissing linkType didDelete w =
     (if (\<not> Link_lexists e w linkName \<or> (dryRun ctx \<and> didDelete)) \<and>
         (ignoreMissing \<or> Link_exists e w (absolute_target e ctx canonicalPath target))
      then
        (if dryRun ctx then (True, w)
         else if linkType = ''symlink''
           then symlinkSync e (desired_target e ctx relative canonicalPath target linkName)
                  (link_path e linkName) w
         else linkSync e (absolute_target e ctx canonicalPath target) (link_path e linkName) w)
      else if \<not> Link_exists e w (absolute_target e ctx canonicalPath target) then (False, w)
      else if Link_isLink e w linkName then
        (if linkType = ''symlink'' then
           (if Link_linkTarget e w linkName
                 = Some (desired_target e ctx relative canonicalPath target linkName)
            then (True, w) else (False, w))
         else (False, w))
      else if linkType = ''hardlink'' then
        (case (statSync e w (link_path e linkName),
               statSync e w (absolute_target e ctx canonicalPath target)) of
           (Some linkStat, Some targetStat) \<Rightarrow>
             if ino linkStat = ino targetStat then (True, w) else (False, w)
         | _ \<Rightarrow> (False, w))
      else (False, w))"
  unfolding Link_link_def Let_def desired_target_def absolute_target_def link_path_def
  by simp

lemma Link_delete_unfold:
  "Link_delete e ctx target path relative canonicalPath force w =
     (if Link_exists e w path \<and> \<not> Link_isLink e w path \<and>
         path_resolve e (link_path e path) = path_resolve e (absolute_target e ctx canonicalPath target)
      then ((False, False), w)
      else if (Link_isLink e w path \<and>
               Link_linkTarget e w path \<noteq> Some (desired_target e ctx relative canonicalPath target path)) \<or>
              (Link_lexists e w path \<and> \<not> Link_isLink e w path)
      then
        (if dryRun ctx then ((True, True), w)
         else if Link_isLink e w (link_path e path) then
           (case unlinkSync e (link_path e path) w of (ok, w1) \<Rightarrow> ((ok, ok), w1))
         else if force then
           (case statSync e w (link_path e path) of
              None \<Rightarrow> ((False, False), w)
            | Some stats \<Rightarrow>
                if isDirectory stats
                then (case rmSync_recursive_force e (link_path e path) w of (ok, w1) \<Rightarrow> ((ok, ok), w1))
                else (case rmSync e (link_path e path) w of (ok, w1) \<Rightarrow> ((ok, ok), w1)))
         else ((False, True), w))
      else ((False, True), w))"
  unfolding Link_delete_def Let_def desired_target_def absolute_target_def link_path_def
  by simp

lemma stat_key_entry:
  "nodes w k = Some nd \<Longrightarrow> \<not> isSymbolicLink nd \<Longrightarrow> stat_key e w (Suc n) k = Some nd"
  by (cases nd) simp_all

lemma statSync_entry:
  "lstatSync e w p = Some nd \<Longrightarrow> \<not> isSymbolicLink nd \<Longrightarrow> statSync e w p = Some nd"
proof -
  assume a: "lstatSync e w p = Some nd" "\<not> isSymbolicLink nd"
  have "stat_key e w (Suc 39) (lookup_key e p) = Some nd"
    using a by (intro stat_key_entry) (simp_all add: lstatSync_def)
  then show ?thesis by (simp add: statSync_def)
qed

lemma collect_excluded_set:
  "set (collect_excluded e w acc pats) = set acc \<union> (\<Union>expat \<in> set pats. set (Link_glob e w expat))"
  by (induction pats arbitrary: acc) auto






lemma entry_test_unchanged:
  assumes pure: "\<And>command cwd w. snd (shellCommand e command cwd w) = w"
  shows "snd (entry_test e ctx s w) = w"
proof (cases "s_test s = Undefined")
  case True
  then show ?thesis by (simp add: entry_test_def)
next
  case False
  obtain ret wx where sh: "shellCommand e (String_of (s_test s)) (baseDirectory e ctx True) w = (ret, wx)"
    by (metis prod.exhaust)
  with pure[of "String_of (s_test s)" "baseDirectory e ctx True" w] have "wx = w" by simp
  with False sh show ?thesis by (simp add: entry_test_def Link_testSuccess_def)
qed

lemma process_entry_unfold:
  "process_entry e ctx d (linkName, target) (success, w) =
     (case entry_settings e d (entry_link_name e linkName) target of
        None \<Rightarrow> (False, w)
      | Some s \<Rightarrow>
          (case entry_test e ctx s w of
             (passed, w0) \<Rightarrow>
               if \<not> passed then (success, w0)
               else if s_useGlob s \<and> Link_hasGlobChars (entry_target e s) then
                 process_glob_items e ctx s (entry_link_name e linkName) (entry_target e s)
                   (Link_createGlobResults e w0 (entry_target e s) (s_excludePaths s)) (success, w0)
               else
                 (case (if s_create s
                        then (case Link_create e ctx (entry_link_name e linkName) w0 of
                                (ok, w1) \<Rightarrow> (ok \<and> success, w1))
                        else (success, w0)) of
                    (success1, w1) \<Rightarrow>
                      if \<not> s_ignoreMissing s \<and>
                         \<not> Link_exists e w1 (absolute_target e ctx True (entry_target e s))
                      then (False, w1)
                      else
                        (case delete_then_link e ctx s (entry_target e s) (entry_link_name e linkName) w1 of
                           (ok, w2) \<Rightarrow> (ok \<and> success1, w2)))))"
  unfolding process_entry_def Let_def entry_link_name_def entry_target_def entry_test_def
    absolute_target_def
  by simp




lemma unlinkSync_ok:
  "unlinkSync e p w = (True, w1) \<Longrightarrow> nodes w1 (lookup_key e p) = None"
  by (auto simp: unlinkSync_def Let_def split: option.splits if_splits)

lemma rmSync_ok:
  "rmSync e p w = (True, w1) \<Longrightarrow> nodes w1 (lookup_key e p) = None"
  by (auto simp: rmSync_def Let_def split: option.splits if_splits)

lemma rmSync_recursive_force_ok:
  "rmSync_recursive_force e p w = (True, w1) \<Longrightarrow> nodes w1 (lookup_key e p) = None"
  by (auto simp: rmSync_recursive_force_def Let_def split: if_splits)

lemma symlinkSync_ok:
  assumes "symlinkSync e t p w = (True, w1)"
  shows "nodes w (lookup_key e p) = None"
    and "nodes w1 = (nodes w)(lookup_key e p \<mapsto> Symlink t)"
  using assms by (auto simp: symlinkSync_def Let_def record_op_def split: if_splits)

lemma linkSync_ok:
  assumes "linkSync e t p w = (True, w1)"
  shows "nodes w (lookup_key e p) = None"
    and "\<exists>nd. nodes w (lookup_key e t) = Some nd \<and> nodes w1 = (nodes w)(lookup_key e p \<mapsto> nd)"
  using assms by (auto simp: linkSync_def Let_def record_op_def split: if_splits option.splits)

lemma stat_key_new_entry:
  "stat_key e w n k = Some nd \<Longrightarrow> nodes w k0 = None \<Longrightarrow> nodes w1 = (nodes w)(k0 \<mapsto> x)
     \<Longrightarrow> stat_key e w1 n k = Some nd"
proof (induction n arbitrary: k)
  case 0
  then show ?case by simp
next
  case (Suc n)
  from Suc.prems(1) obtain y where y: "nodes w k = Some y"
    by (cases "nodes w k") auto
  with Suc.prems(2) have ne: "k \<noteq> k0" by auto
  show ?case
  proof (cases y)
    case (Symlink t)
    with Suc.prems y have "stat_key e w n (follow e k t) = Some nd" by simp
    then have "stat_key e w1 n (follow e k t) = Some nd"
      using Suc.prems(2,3) by (rule Suc.IH)
    with Symlink y ne Suc.prems(3) show ?thesis by simp
  next
    case (File d i)
    with Suc.prems y ne show ?thesis by auto
  next
    case (Dir d i)
    with Suc.prems y ne show ?thesis by auto
  qed
qed

lemma exists_new_entry:
  assumes "Link_exists e w p" and "nodes w k0 = None" and "nodes w1 = (nodes w)(k0 \<mapsto> x)"
  shows "Link_exists e w1 p"
proof -
  from assms(1) obtain nd where "stat_key e w 40 (lookup_key e (Link_expandPath e p)) = Some nd"
    by (auto simp: Link_exists_def existsSync_def statSync_def)
  then have "stat_key e w1 40 (lookup_key e (Link_expandPath e p)) = Some nd"
    using assms(2,3) by (rule stat_key_new_entry)
  then show ?thesis
    by (simp add: Link_exists_def existsSync_def statSync_def)
qed

lemma delete_effect:
  assumes real: "\<not> dryRun ctx"
    and same_entry: "lookup_key e (link_path e path) = lookup_key e (Link_expandPath e path)"
    and del: "Link_delete e ctx target path relative canonicalPath force w = ((r, True), w')"
  shows "w' = w \<or> \<not> Link_lexists e w' path"
proof -
  have lex: "Link_lexists e w' path = (nodes w' (lookup_key e (link_path e path)) \<noteq> None)"
    by (simp add: Link_lexists_def lstatSync_def same_entry)
  from del real show ?thesis
    unfolding Link_delete_unfold lex
    by (auto split: if_splits prod.splits option.splits
        dest: unlinkSync_ok rmSync_ok rmSync_recursive_force_ok)
qed

lemma link_success_cases:
  assumes real: "\<not> dryRun ctx"
    and ok: "Link_link e ctx target linkName relative canonicalPath ignoreMissing linkType dd w' = (True, w1)"
  shows "(w1 = w' \<and> Link_lexists e w' linkName) \<or>
         (\<not> Link_lexists e w' linkName \<and>
          (ignoreMissing \<or> Link_exists e w' (absolute_target e ctx canonicalPath target)) \<and>
          (if linkType = ''symlink''
           then symlinkSync e (desired_target e ctx relative canonicalPath target linkName)
                  (link_path e linkName) w' = (True, w1)
           else linkSync e (absolute_target e ctx canonicalPath target) (link_path e linkName) w' = (True, w1)))"
  using ok real unfolding Link_link_unfold
  by (auto split: if_splits option.splits prod.splits)

lemma correct_symlink_stable:
  assumes real: "\<not> dryRun ctx" and sym: "s_linkType s = ''symlink''"
    and l: "Link_isLink e w linkName"
    and t: "Link_linkTarget e w linkName =
              Some (desired_target e ctx (s_relative s) (s_canonicalPath s) target linkName)"
    and x: "Link_exists e w (absolute_target e ctx (s_canonicalPath s) target)"
  shows "delete_then_link e ctx s target linkName w = (True, w)"
proof -
  have lex: "Link_lexists e w linkName" using l by (rule isLink_lexists)
  have d: "Link_delete e ctx target linkName (s_relative s) (s_canonicalPath s) (s_force s) w
             = ((False, True), w)"
    using l t lex by (simp add: Link_delete_unfold)
  have k: "Link_link e ctx target linkName (s_relative s) (s_canonicalPath s)
             (s_ignoreMissing s) (s_linkType s) False w = (True, w)"
    using l t lex x real sym by (simp add: Link_link_unfold)
  show ?thesis
    using d k by (simp add: delete_then_link_def)
qed

lemma correct_hardlink_stable:
  assumes real: "\<not> dryRun ctx" and hard: "s_linkType s = ''hardlink''" and nf: "\<not> s_force s"
    and lex: "Link_lexists e w linkName" and nl: "\<not> Link_isLink e w linkName"
    and x: "Link_exists e w (absolute_target e ctx (s_canonicalPath s) target)"
    and sa: "statSync e w (link_path e linkName) = Some a"
    and sb: "statSync e w (absolute_target e ctx (s_canonicalPath s) target) = Some b"
    and eq: "ino a = ino b"
    and nl': "\<not> Link_isLink e w (link_path e linkName)"
    and distinct: "path_resolve e (link_path e linkName) \<noteq>
                   path_resolve e (absolute_target e ctx (s_canonicalPath s) target)"
  shows "delete_then_link e ctx s target linkName w = (True, w)"
proof -
  have d: "Link_delete e ctx target linkName (s_relative s) (s_canonicalPath s) (s_force s) w
             = ((False, True), w)"
    using nl lex nl' distinct real nf by (simp add: Link_delete_unfold)
  have k: "Link_link e ctx target linkName (s_relative s) (s_canonicalPath s)
             (s_ignoreMissing s) (s_linkType s) False w = (True, w)"
    using nl lex x real hard sa sb eq by (simp add: Link_link_unfold)
  show ?thesis
    using d k by (simp add: delete_then_link_def)
qed

text \<open>
  What a second run keeps: a delete and link step that has succeeded, for a link of type
  \<^verbatim>\<open>symlink\<close>, or of type \<^verbatim>\<open>hardlink\<close> without \<^verbatim>\<open>force\<close> to a regular file at another
  path, succeeds again on the file system it left and makes no mutating call, provided
  that under \<^verbatim>\<open>ignore-missing\<close> the target is there.
\<close>

lemma delete_then_link_idempotent:
  assumes real: "\<not> dryRun ctx"
    and posix: "\<not> win32 e"
    and same_entry: "lookup_key e (link_path e linkName) = lookup_key e (Link_expandPath e linkName)"
    and expanded: "Link_expandPath e (link_path e linkName) = link_path e linkName"
    and kind: "s_linkType s = ''symlink'' \<or>
               (s_linkType s = ''hardlink'' \<and> \<not> s_force s \<and>
                (\<exists>d i. lstatSync e w1 (absolute_target e ctx (s_canonicalPath s) target) = Some (File d i)) \<and>
                path_resolve e (link_path e linkName) \<noteq>
                  path_resolve e (absolute_target e ctx (s_canonicalPath s) target))"
    and target: "s_ignoreMissing s \<longrightarrow>
                   Link_exists e w1 (absolute_target e ctx (s_canonicalPath s) target)"
    and first: "delete_then_link e ctx s target linkName w = (True, w1)"
  shows "delete_then_link e ctx s target linkName w1 = (True, w1)"
proof -
  let ?abs = "absolute_target e ctx (s_canonicalPath s) target"
  let ?des = "desired_target e ctx (s_relative s) (s_canonicalPath s) target linkName"
  let ?lp = "link_path e linkName"
  let ?k = "lookup_key e ?lp"
  obtain dd ds w' where del: "(if s_force s \<or> s_relink s
            then Link_delete e ctx target linkName (s_relative s) (s_canonicalPath s) (s_force s) w
            else ((False, True), w)) = ((dd, ds), w')"
    by (metis prod.exhaust)
  obtain linked where lnk: "Link_link e ctx target linkName (s_relative s) (s_canonicalPath s)
                  (s_ignoreMissing s) (s_linkType s) dd w' = (linked, w1)" and both: "ds \<and> linked"
    using first del by (auto simp: delete_then_link_def split: prod.splits)
  have ds: "ds" and linked: "linked" using both by simp_all
  have after_delete: "w' = w \<or> \<not> Link_lexists e w' linkName"
  proof (cases "s_force s \<or> s_relink s")
    case True
    with del ds have "Link_delete e ctx target linkName (s_relative s) (s_canonicalPath s) (s_force s) w
            = ((dd, True), w')" by simp
    with real same_entry show ?thesis by (rule delete_effect)
  next
    case False
    with del show ?thesis by simp
  qed
  have lex_at: "Link_lexists e v linkName = (nodes v ?k \<noteq> None)" for v
    by (simp add: Link_lexists_def lstatSync_def same_entry)
  from link_success_cases[OF real lnk[unfolded linked[THEN eqTrueI]]]
  consider (unchanged) "w1 = w'" "Link_lexists e w' linkName"
    | (created) "\<not> Link_lexists e w' linkName"
        "s_ignoreMissing s \<or> Link_exists e w' ?abs"
        "if s_linkType s = ''symlink''
         then symlinkSync e ?des ?lp w' = (True, w1)
         else linkSync e ?abs ?lp w' = (True, w1)"
    by blast
  then show ?thesis
  proof cases
    case unchanged
    with after_delete have "w1 = w" by auto
    with first show ?thesis by simp
  next
    case created
    note tgt = created(2) and made = created(3)
    show ?thesis
    proof (cases "s_linkType s = ''symlink''")
      case True
      with made have m: "symlinkSync e ?des ?lp w' = (True, w1)" by simp
      note e0 = symlinkSync_ok[OF m]
      have n1: "nodes w1 ?k = Some (Symlink ?des)" using e0(2) by simp
      have l1: "Link_isLink e w1 linkName"
        using n1 by (simp add: isLink_iff lstatSync_def same_entry)
      have t1: "Link_linkTarget e w1 linkName = Some ?des"
        using n1 posix by (simp add: Link_linkTarget_def readlinkSync_def lstatSync_def same_entry)
      have x1: "Link_exists e w1 ?abs"
      proof (cases "s_ignoreMissing s")
        case True
        with target show ?thesis by simp
      next
        case False
        with tgt have "Link_exists e w' ?abs" by simp
        then show ?thesis using e0 by (rule exists_new_entry)
      qed
      show ?thesis using real True l1 t1 x1 by (rule correct_symlink_stable)
    next
      case False
      with kind have hard: "s_linkType s = ''hardlink''" and nf: "\<not> s_force s"
        and distinct: "path_resolve e ?lp \<noteq> path_resolve e ?abs"
        by simp_all
      from kind False obtain d i where isfile: "lstatSync e w1 ?abs = Some (File d i)" by auto
      from made False have m: "linkSync e ?abs ?lp w' = (True, w1)" by simp
      from linkSync_ok[OF m] obtain nd where e0: "nodes w' ?k = None"
        and src: "nodes w' (lookup_key e ?abs) = Some nd"
        and upd: "nodes w1 = (nodes w')(?k \<mapsto> nd)" by auto
      have ne: "lookup_key e ?abs \<noteq> ?k" using e0 src by auto
      have nd: "nd = File d i"
        using isfile src upd ne by (simp add: lstatSync_def)
      have n1: "nodes w1 ?k = Some (File d i)" using upd nd by simp
      have lex1: "Link_lexists e w1 linkName" using n1 by (simp add: lex_at)
      have nl1: "\<not> Link_isLink e w1 linkName"
        using n1 by (simp add: isLink_iff lstatSync_def same_entry)
      have nl2: "\<not> Link_isLink e w1 ?lp"
        using n1 by (simp add: isLink_iff lstatSync_def expanded)
      have sa: "statSync e w1 ?lp = Some (File d i)"
        using n1 by (intro statSync_entry) (simp_all add: lstatSync_def)
      have sb: "statSync e w1 ?abs = Some (File d i)"
        using isfile by (intro statSync_entry) simp_all
      have x1: "Link_exists e w1 ?abs"
      proof (cases "s_ignoreMissing s")
        case True
        with target show ?thesis by simp
      next
        case False
        with tgt have "Link_exists e w' ?abs" by simp
        then show ?thesis using e0 upd by (rule exists_new_entry)
      qed
      show ?thesis
        using real hard nf lex1 nl1 x1 sa sb _ nl2 distinct
        by (rule correct_hardlink_stable) simp
    qed
  qed
qed

text \<open>
  The comparison of lines 494--500, for a link path that exists and is not a symbolic
  link: the two inode numbers decide, and the file system is returned as it was.
\<close>

lemma hardlink_compares_inode_numbers:
  assumes "linkType = ''hardlink''"
    and "\<not> (dryRun ctx \<and> didDelete)"
    and "Link_lexists e w linkName" and "\<not> Link_isLink e w linkName"
    and "Link_exists e w (absolute_target e ctx canonicalPath target)"
    and "statSync e w (link_path e linkName) = Some a"
    and "statSync e w (absolute_target e ctx canonicalPath target) = Some b"
  shows "Link_link e ctx target linkName relative canonicalPath ignoreMissing linkType didDelete w
           = (ino a = ino b, w)"
  using assms by (auto simp: Link_link_unfold)



subsection \<open>One entry of the payload\<close>

text \<open>
  With \<^verbatim>\<open>force\<close> and \<^verbatim>\<open>relink\<close> unset nothing is removed: every directory entry stays
  through \<^verbatim>\<open>_create\<close>, the link step, and so through all matches of a glob. A failure
  is never taken back: \<^verbatim>\<open>success\<close> is only ever and-ed with results.
\<close>

lemma mkdirSync_recursive_keeps:
  "nodes w k = Some nd \<Longrightarrow> nodes (snd (mkdirSync_recursive e p w)) k = Some nd"
  by (simp add: mkdirSync_recursive_def Let_def record_op_def)

lemma Link_create_keeps:
  "nodes w k = Some nd \<Longrightarrow> nodes (snd (Link_create e ctx p w)) k = Some nd"
  by (simp add: Link_create_def Let_def mkdirSync_recursive_keeps)

lemma symlinkSync_keeps:
  "nodes w k = Some nd \<Longrightarrow> nodes (snd (symlinkSync e t p w)) k = Some nd"
  by (auto simp: symlinkSync_def Let_def record_op_def)

lemma linkSync_keeps:
  "nodes w k = Some nd \<Longrightarrow> nodes (snd (linkSync e t p w)) k = Some nd"
  by (auto simp: linkSync_def Let_def record_op_def split: option.splits)

lemma Link_link_keeps:
  "nodes w k = Some nd \<Longrightarrow>
     nodes (snd (Link_link e ctx t n relative canonicalPath ignoreMissing linkType dd w)) k = Some nd"
  by (auto simp: Link_link_unfold symlinkSync_keeps linkSync_keeps split: option.splits)

lemma step_keeps:
  assumes "\<not> s_force s" and "\<not> s_relink s" and "nodes w k = Some nd"
  shows "nodes (snd (delete_then_link e ctx s t n w)) k = Some nd"
proof -
  obtain r w2 where l: "Link_link e ctx t n (s_relative s) (s_canonicalPath s)
                          (s_ignoreMissing s) (s_linkType s) False w = (r, w2)"
    by (metis prod.exhaust)
  have "nodes w2 k = Some nd"
    using Link_link_keeps[OF assms(3), of e ctx t n "s_relative s" "s_canonicalPath s"
        "s_ignoreMissing s" "s_linkType s" False] l by simp
  with l assms(1,2) show ?thesis by (simp add: delete_then_link_def)
qed

lemma same_node_same_link:
  assumes "nodes v (lookup_key e (Link_expandPath e n)) = nodes w (lookup_key e (Link_expandPath e n))"
  shows "Link_isLink e v n = Link_isLink e w n" and "Link_linkTarget e v n = Link_linkTarget e w n"
  using assms by (simp_all add: Link_isLink_def Link_linkTarget_def readlinkSync_def lstatSync_def)

lemma step_fails_at_divergent_symlink:
  assumes nf: "\<not> s_force s" and nr: "\<not> s_relink s"
    and l: "Link_isLink e w n"
    and stale: "Link_linkTarget e w n \<noteq>
                  Some (desired_target e ctx (s_relative s) (s_canonicalPath s) t n)"
  shows "delete_then_link e ctx s t n w = (False, w)"
proof -
  have "Link_lexists e w n" using l by (rule isLink_lexists)
  then have "Link_link e ctx t n (s_relative s) (s_canonicalPath s)
               (s_ignoreMissing s) (s_linkType s) False w = (False, w)"
    using l stale by (simp add: Link_link_unfold)
  then show ?thesis using nf nr by (simp add: delete_then_link_def)
qed

lemma glob_items_stay_failed:
  "fst (process_glob_items e ctx s n path items (False, w)) = False"
proof (induction items arbitrary: w)
  case Nil
  then show ?case by simp
next
  case (Cons x xs)
  then show ?case
    by (simp add: Let_def split: prod.splits)
qed

lemma glob_items_keep:
  assumes nf: "\<not> s_force s" and nr: "\<not> s_relink s"
  shows "nodes w k = Some nd \<Longrightarrow>
           nodes (snd (process_glob_items e ctx s n path items (ok, w))) k = Some nd"
proof (induction items arbitrary: ok w)
  case Nil
  then show ?case by simp
next
  case (Cons x xs)
  let ?name = "glob_link_name e s n path x"
  obtain ok1 w1 where cr: "(if s_create s
            then (case Link_create e ctx ?name w of (r, v) \<Rightarrow> (r \<and> ok, v))
            else (ok, w)) = (ok1, w1)"
    by (metis prod.exhaust)
  have k1: "nodes w1 k = Some nd"
  proof (cases "s_create s")
    case True
    with cr have "w1 = snd (Link_create e ctx ?name w)" by (auto split: prod.splits)
    with Cons.prems show ?thesis by (simp add: Link_create_keeps)
  next
    case False
    with cr Cons.prems show ?thesis by simp
  qed
  obtain r w2 where st: "delete_then_link e ctx s x ?name w1 = (r, w2)"
    by (metis prod.exhaust)
  have k2: "nodes w2 k = Some nd"
    using step_keeps[OF nf nr k1, of e ctx x ?name] st by simp
  show ?case
    using cr st Cons.IH[OF k2] by (simp add: Let_def)
qed

lemma glob_items_fail_at_divergent_symlink:
  assumes nf: "\<not> s_force s" and nr: "\<not> s_relink s"
    and mem: "item \<in> set items"
    and l: "Link_isLink e w (glob_link_name e s n path item)"
    and stale: "Link_linkTarget e w (glob_link_name e s n path item) \<noteq>
                  Some (desired_target e ctx (s_relative s) (s_canonicalPath s) item
                          (glob_link_name e s n path item))"
  shows "fst (process_glob_items e ctx s n path items (ok, w)) = False"
  using mem l stale
proof (induction items arbitrary: ok w)
  case Nil
  then show ?case by simp
next
  case (Cons x xs)
  let ?name = "glob_link_name e s n path x"
  let ?mine = "glob_link_name e s n path item"
  let ?k = "lookup_key e (Link_expandPath e ?mine)"
  from Cons.prems(2) obtain t where t: "nodes w ?k = Some (Symlink t)"
    by (auto simp: isLink_iff lstatSync_def)
  obtain ok1 w1 where cr: "(if s_create s
            then (case Link_create e ctx ?name w of (r, v) \<Rightarrow> (r \<and> ok, v))
            else (ok, w)) = (ok1, w1)"
    by (metis prod.exhaust)
  have k1: "nodes w1 ?k = Some (Symlink t)"
  proof (cases "s_create s")
    case True
    with cr have "w1 = snd (Link_create e ctx ?name w)" by (auto split: prod.splits)
    with t show ?thesis by (simp add: Link_create_keeps)
  next
    case False
    with cr t show ?thesis by simp
  qed
  obtain r w2 where st: "delete_then_link e ctx s x ?name w1 = (r, w2)"
    by (metis prod.exhaust)
  have k2: "nodes w2 ?k = Some (Symlink t)"
    using step_keeps[OF nf nr k1, of e ctx x ?name] st by simp
  have unfold: "process_glob_items e ctx s n path (x # xs) (ok, w) =
                  process_glob_items e ctx s n path xs (r \<and> ok1, w2)"
    using cr st by (simp add: Let_def)
  show ?case
  proof (cases "x = item")
    case True
    have l1: "Link_isLink e w1 ?mine" and t1: "Link_linkTarget e w1 ?mine = Link_linkTarget e w ?mine"
      using same_node_same_link[of w1 e ?mine w] k1 t Cons.prems(2) by simp_all
    have "delete_then_link e ctx s item ?mine w1 = (False, w1)"
      using nf nr l1 Cons.prems(3) t1 by (intro step_fails_at_divergent_symlink) simp_all
    with st True have "r = False" by simp
    then show ?thesis
      unfolding unfold by (simp add: glob_items_stay_failed)
  next
    case False
    with Cons.prems(1) have mem': "item \<in> set xs" by simp
    have l2: "Link_isLink e w2 ?mine" and t2: "Link_linkTarget e w2 ?mine = Link_linkTarget e w ?mine"
      using same_node_same_link[of w2 e ?mine w] k2 t Cons.prems(2) by simp_all
    have "fst (process_glob_items e ctx s n path xs (r \<and> ok1, w2)) = False"
      using mem' l2 Cons.prems(3) t2 by (intro Cons.IH) simp_all
    then show ?thesis unfolding unfold .
  qed
qed

lemma process_entry_stays_failed:
  "fst (process_entry e ctx d entry (False, w)) = False"
proof -
  obtain linkName target where entry: "entry = (linkName, target)" by (cases entry)
  show ?thesis
    unfolding entry process_entry_unfold
    by (auto simp: glob_items_stay_failed split: option.splits prod.splits)
qed

lemma process_entries_stay_failed:
  "fst (process_entries e ctx d es (False, w)) = False"
proof (induction es arbitrary: w)
  case Nil
  then show ?case by simp
next
  case (Cons x xs)
  obtain r v where p: "process_entry e ctx d x (False, w) = (r, v)" by (metis prod.exhaust)
  with process_entry_stays_failed[of e ctx d x w] have "r = False" by simp
  with p Cons.IH[of v] show ?case by simp
qed

lemma process_entries_append:
  "process_entries e ctx d (xs @ ys) sw = process_entries e ctx d ys (process_entries e ctx d xs sw)"
  by (induction xs arbitrary: sw) simp_all

text \<open>An entry whose link type is not recognized fails and touches nothing (lines 99--103).\<close>

lemma unrecognized_type_entry_fails:
  "entry_settings e d (entry_link_name e linkName) target = None \<Longrightarrow>
     process_entry e ctx d (linkName, target) (ok, w) = (False, w)"
  by (simp add: process_entry_unfold)

text \<open>
  A glob entry links the matches of the destination pattern that no exclude pattern
  yields, and nothing else.
\<close>

lemma glob_entry_links_matches_only:
  assumes "entry_settings e d (entry_link_name e linkName) target = Some s"
    and "s_test s = Undefined"
    and "s_useGlob s"
    and "Link_hasGlobChars (entry_target e s)"
  shows "process_entry e ctx d (linkName, target) (ok, w) =
           process_glob_items e ctx s (entry_link_name e linkName) (entry_target e s)
             (filter (\<lambda>item. item \<notin> (\<Union>expat \<in> set (s_excludePaths s). set (Link_glob e w expat)))
                (Link_glob e w (entry_target e s)))
             (ok, w)"
  using assms
  by (simp add: process_entry_unfold entry_test_def Link_createGlobResults_def Let_def
        collect_excluded_set)

text \<open>
  A plain entry that has succeeded succeeds again on the file system it left and changes
  nothing, when the shell tests change nothing and the target (and, with \<^verbatim>\<open>create\<close>,
  the parent directory of the link) is there after the first run.
\<close>

lemma entry_second_run:
  assumes real: "\<not> dryRun ctx"
    and posix: "\<not> win32 e"
    and pure: "\<And>command cwd w. snd (shellCommand e command cwd w) = w"
    and es: "entry_settings e d (entry_link_name e linkName) target = Some s"
    and nonglob: "\<not> (s_useGlob s \<and> Link_hasGlobChars (entry_target e s))"
    and same_entry: "lookup_key e (link_path e (entry_link_name e linkName))
                       = lookup_key e (Link_expandPath e (entry_link_name e linkName))"
    and expanded: "Link_expandPath e (link_path e (entry_link_name e linkName))
                     = link_path e (entry_link_name e linkName)"
    and kind: "s_linkType s = ''symlink'' \<or>
               (s_linkType s = ''hardlink'' \<and> \<not> s_force s \<and>
                (\<exists>dv i. lstatSync e w1
                    (absolute_target e ctx (s_canonicalPath s) (entry_target e s)) = Some (File dv i)) \<and>
                path_resolve e (link_path e (entry_link_name e linkName)) \<noteq>
                  path_resolve e (absolute_target e ctx (s_canonicalPath s) (entry_target e s)))"
    and target_there: "Link_exists e w1 (absolute_target e ctx True (entry_target e s))"
        "Link_exists e w1 (absolute_target e ctx (s_canonicalPath s) (entry_target e s))"
    and parent_there: "s_create s \<longrightarrow>
        Link_exists e w1
          (path_resolve e (path_join e (Link_expandPath e (entry_link_name e linkName)) ''..''))"
    and first: "process_entry e ctx d (linkName, target) (True, w) = (True, w1)"
  shows "process_entry e ctx d (linkName, target) (True, w1) = (True, w1)"
proof -
  let ?n = "entry_link_name e linkName"
  let ?p = "entry_target e s"
  obtain passed where t: "entry_test e ctx s w = (passed, w)"
    using entry_test_unchanged[OF pure, of ctx s w] by (cases "entry_test e ctx s w") simp
  obtain passed1 where t1: "entry_test e ctx s w1 = (passed1, w1)"
    using entry_test_unchanged[OF pure, of ctx s w1] by (cases "entry_test e ctx s w1") simp
  have cr1: "Link_create e ctx ?n w1 = (True, w1)" if "s_create s"
    using that parent_there by (simp add: Link_create_def Let_def)
  show ?thesis
  proof (cases passed)
    case False
    with first es t have "w1 = w"
      by (simp add: process_entry_unfold)
    with first show ?thesis by simp
  next
    case True
    obtain okc wc where cr: "(if s_create s
                              then (case Link_create e ctx ?n w of (r, v) \<Rightarrow> (r \<and> True, v))
                              else (True, w)) = (okc, wc)"
      by (metis prod.exhaust)
    have run1: "delete_then_link e ctx s ?p ?n wc = (True, w1)"
      using first es t True nonglob cr
      by (auto simp: process_entry_unfold split: prod.splits if_splits)
    have run2: "delete_then_link e ctx s ?p ?n w1 = (True, w1)"
      using real posix same_entry expanded kind _ run1
      by (rule delete_then_link_idempotent) (simp add: target_there)
    show ?thesis
    proof (cases passed1)
      case False
      with es t1 show ?thesis by (simp add: process_entry_unfold)
    next
      case True
      with es t1 nonglob run2 target_there(1) cr1 show ?thesis
        by (auto simp: process_entry_unfold split: prod.splits)
    qed
  qed
qed

subsection \<open>The claims about the link plugin\<close>

text \<open>
  Claim C6, as amended. Take an entry whose options resolve, with \<^verbatim>\<open>force\<close> and
  \<^verbatim>\<open>relink\<close> unset, whose \<^verbatim>\<open>if\<close> test is absent or succeeds, and a link path of it (the
  link name of a plain entry, or the link name made for a match of a glob entry) that is
  a symbolic link whose recorded target differs from the desired one. Then the entry
  reports failure, the recorded target of the symbolic link is afterwards what it was,
  and the whole run reports failure. This holds in a real run and in a dry run, also
  when \<^verbatim>\<open>create\<close> makes parent directories first and when other matches of the glob
  are linked. The desired target is the text the engine computes (\<open>desired_target\<close>),
  from a base directory that is normalized, not resolved through symbolic links.
\<close>

theorem divergent_symlink_entry_fails:
  assumes es: "entry_settings e d (entry_link_name e linkName) target = Some s"
    and nf: "\<not> s_force s" and nr: "\<not> s_relink s"
    and gate: "entry_test e ctx s w = (True, w0)"
    and place:
      "(\<not> (s_useGlob s \<and> Link_hasGlobChars (entry_target e s)) \<and>
         item = entry_target e s \<and> name = entry_link_name e linkName) \<or>
       (s_useGlob s \<and> Link_hasGlobChars (entry_target e s) \<and>
         item \<in> set (Link_createGlobResults e w0 (entry_target e s) (s_excludePaths s)) \<and>
         name = glob_link_name e s (entry_link_name e linkName) (entry_target e s) item)"
    and l: "Link_isLink e w0 name"
    and stale: "Link_linkTarget e w0 name \<noteq>
                  Some (desired_target e ctx (s_relative s) (s_canonicalPath s) item name)"
    and dflt: "d = nullish link_defaults no_options"
    and earlier: "process_entries e ctx d before (True, start) = (ok, w)"
  shows "fst (process_entry e ctx d (linkName, target) (ok, w)) = False
       \<and> Link_linkTarget e (snd (process_entry e ctx d (linkName, target) (ok, w))) name
           = Link_linkTarget e w0 name
       \<and> fst (Link_processLinks e ctx link_defaults
                 (Some (before @ (linkName, target) # after)) start) = False"
proof -
  let ?n = "entry_link_name e linkName"
  let ?p = "entry_target e s"
  let ?k = "lookup_key e (Link_expandPath e name)"
  let ?run = "process_entry e ctx d (linkName, target) (ok, w)"
  from l obtain t where t: "nodes w0 ?k = Some (Symlink t)"
    by (auto simp: isLink_iff lstatSync_def)
  have run: "fst ?run = False \<and> nodes (snd ?run) ?k = Some (Symlink t)"
  proof (cases "s_useGlob s \<and> Link_hasGlobChars ?p")
    case True
    with place have mem: "item \<in> set (Link_createGlobResults e w0 ?p (s_excludePaths s))"
      and nm: "name = glob_link_name e s ?n ?p item" by auto
    have eq: "?run = process_glob_items e ctx s ?n ?p
                (Link_createGlobResults e w0 ?p (s_excludePaths s)) (ok, w0)"
      using es gate True by (simp add: process_entry_unfold)
    have "fst (process_glob_items e ctx s ?n ?p
                (Link_createGlobResults e w0 ?p (s_excludePaths s)) (ok, w0)) = False"
      using nf nr mem l stale unfolding nm by (rule glob_items_fail_at_divergent_symlink)
    moreover have "nodes (snd (process_glob_items e ctx s ?n ?p
                (Link_createGlobResults e w0 ?p (s_excludePaths s)) (ok, w0))) ?k = Some (Symlink t)"
      using nf nr t by (rule glob_items_keep)
    ultimately show ?thesis by (simp add: eq)
  next
    case False
    with place have it: "item = ?p" and nm: "name = ?n" by auto
    obtain ok1 w1 where cr: "(if s_create s
                              then (case Link_create e ctx ?n w0 of (r, v) \<Rightarrow> (r \<and> ok, v))
                              else (ok, w0)) = (ok1, w1)"
      by (metis prod.exhaust)
    have t1: "nodes w1 ?k = Some (Symlink t)"
    proof (cases "s_create s")
      case True
      with cr have "w1 = snd (Link_create e ctx ?n w0)" by (auto split: prod.splits)
      with t show ?thesis by (simp add: Link_create_keeps)
    next
      case False
      with cr t show ?thesis by simp
    qed
    have l1: "Link_isLink e w1 name" and tt: "Link_linkTarget e w1 name = Link_linkTarget e w0 name"
      using same_node_same_link[of w1 e name w0] t1 t l by simp_all
    have step: "delete_then_link e ctx s ?p ?n w1 = (False, w1)"
      using nf nr l1 stale tt unfolding it nm by (intro step_fails_at_divergent_symlink) simp_all
    have "?run = (False, w1)"
      using es gate False cr step by (auto simp: process_entry_unfold split: prod.splits)
    with t1 show ?thesis by simp
  qed
  have same: "Link_linkTarget e (snd ?run) name = Link_linkTarget e w0 name"
    using same_node_same_link(2)[of "snd ?run" e name w0] run t by simp
  have whole: "fst (Link_processLinks e ctx link_defaults
                 (Some (before @ (linkName, target) # after)) start) = False"
  proof -
    obtain v where v: "?run = (False, v)" using run by (cases ?run) simp
    have "process_entries e ctx d (before @ (linkName, target) # after) (True, start)
            = process_entries e ctx d after (False, v)"
      using earlier v by (simp add: process_entries_append)
    then have "fst (process_entries e ctx d (before @ (linkName, target) # after) (True, start)) = False"
      by (simp add: process_entries_stay_failed)
    then show ?thesis
      by (simp add: Link_processLinks_def Let_def dflt)
  qed
  from run same whole show ?thesis by simp
qed

theorem divergent_symlink_entry_fails_witness:
  "Link_isLink demo_posix (home_fs [([''h'', ''.f''], Symlink ''/old'')]) ''~/.f''
   \<and> Link_linkTarget demo_posix (home_fs [([''h'', ''.f''], Symlink ''/old'')]) ''~/.f'' = Some ''/old''
   \<and> desired_target demo_posix (context_at ''/d'' False) False True ''f'' ''~/.f'' = ''/d/f''
   \<and> fst (process_entry demo_posix (context_at ''/d'' False) no_options
            (''~/.f'', Extended (no_options\<lparr>opt_path := Some ''f'', opt_if := Text ''true''\<rparr>))
            (True, home_fs [([''h'', ''.f''], Symlink ''/old'')])) = False
   \<and> Link_linkTarget demo_posix
        (snd (process_entry demo_posix (context_at ''/d'' False) no_options
               (''~/.f'', Extended (no_options\<lparr>opt_path := Some ''f'', opt_if := Text ''true''\<rparr>))
               (True, home_fs [([''h'', ''.f''], Symlink ''/old'')]))) ''~/.f'' = Some ''/old''
   \<and> fst (Link_processLinks demo_posix (context_at ''/d'' False) None
            (Some [(''~/.f'', Extended (no_options\<lparr>opt_path := Some ''f'', opt_if := Text ''true''\<rparr>)),
                   (''~/.g'', Bare (Some ''f''))])
            (home_fs [([''h'', ''.f''], Symlink ''/old'')])) = False"
proof -
  let ?w = "home_fs [([''h'', ''.f''], Symlink ''/old'')]"
  let ?c = "context_at ''/d'' False"
  let ?t = "Extended (no_options\<lparr>opt_path := Some ''f'', opt_if := Text ''true''\<rparr>)"
  let ?s = "(from_defaults no_options)\<lparr>s_test := Text ''true'', s_path := ''f''\<rparr>"
  have es: "entry_settings demo_posix no_options (entry_link_name demo_posix ''~/.f'') ?t = Some ?s"
    by code_simp
  have nf: "\<not> s_force ?s" and nr: "\<not> s_relink ?s"
    by (simp_all add: from_defaults_def no_options_def)
  have r: "s_relative ?s = False" "s_canonicalPath ?s = True"
    by (simp_all add: from_defaults_def no_options_def nullish_def)
  have gate: "entry_test demo_posix ?c ?s ?w = (True, ?w)"
    by (simp add: entry_test_def Link_testSuccess_def demo_posix_def posix_def)
  have name: "entry_link_name demo_posix ''~/.f'' = ''~/.f''" by code_simp
  have item: "entry_target demo_posix ?s = ''f''" by code_simp
  have ng: "\<not> (s_useGlob ?s \<and> Link_hasGlobChars (entry_target demo_posix ?s))"
    by (simp add: from_defaults_def no_options_def)
  have place:
      "(\<not> (s_useGlob ?s \<and> Link_hasGlobChars (entry_target demo_posix ?s)) \<and>
         ''f'' = entry_target demo_posix ?s \<and> ''~/.f'' = entry_link_name demo_posix ''~/.f'') \<or>
       (s_useGlob ?s \<and> Link_hasGlobChars (entry_target demo_posix ?s) \<and>
         ''f'' \<in> set (Link_createGlobResults demo_posix ?w (entry_target demo_posix ?s) (s_excludePaths ?s)) \<and>
         ''~/.f'' = glob_link_name demo_posix ?s (entry_link_name demo_posix ''~/.f'')
                     (entry_target demo_posix ?s) ''f'')"
    using ng name item by simp
  have l: "Link_isLink demo_posix ?w ''~/.f''" by code_simp
  have t: "Link_linkTarget demo_posix ?w ''~/.f'' = Some ''/old''" by code_simp
  have g: "desired_target demo_posix ?c False True ''f'' ''~/.f'' = ''/d/f''" by code_simp
  have stale: "Link_linkTarget demo_posix ?w ''~/.f'' \<noteq>
                 Some (desired_target demo_posix ?c (s_relative ?s) (s_canonicalPath ?s) ''f'' ''~/.f'')"
    using t g r by simp
  have dflt: "no_options = nullish None no_options" by (simp add: nullish_def)
  have earlier: "process_entries demo_posix ?c no_options [] (True, ?w) = (True, ?w)" by simp
  show ?thesis
    using l t g
      divergent_symlink_entry_fails[OF es nf nr gate place l stale dflt earlier,
        of "[(''~/.g'', Bare (Some ''f''))]"]
    by simp
qed

text \<open>
  Claim C6 as stated fails: an entry whose \<^verbatim>\<open>if\<close> test fails is skipped (lines
  119--122) and leaves \<^verbatim>\<open>success\<close> as it was. With a symbolic link \<^verbatim>\<open>/h/.f\<close> that
  records \<^verbatim>\<open>/old\<close> where \<^verbatim>\<open>/d/f\<close> is desired, \<^verbatim>\<open>force\<close> and \<^verbatim>\<open>relink\<close> unset, and
  a test that exits with 1, the entry and the run report success.
\<close>

theorem failed_test_skips_divergent_symlink:
  "Link_isLink (demo_posix\<lparr>shellCommand := failing_shell\<rparr>)
      (home_fs [([''h'', ''.f''], Symlink ''/old'')]) ''~/.f''
   \<and> Link_linkTarget (demo_posix\<lparr>shellCommand := failing_shell\<rparr>)
        (home_fs [([''h'', ''.f''], Symlink ''/old'')]) ''~/.f'' = Some ''/old''
   \<and> desired_target (demo_posix\<lparr>shellCommand := failing_shell\<rparr>) (context_at ''/d'' False)
        False True ''f'' ''~/.f'' = ''/d/f''
   \<and> fst (process_entry (demo_posix\<lparr>shellCommand := failing_shell\<rparr>) (context_at ''/d'' False)
            no_options (''~/.f'', Extended (no_options\<lparr>opt_path := Some ''f'', opt_if := Text ''false''\<rparr>))
            (True, home_fs [([''h'', ''.f''], Symlink ''/old'')])) = True
   \<and> fst (Link_processLinks (demo_posix\<lparr>shellCommand := failing_shell\<rparr>) (context_at ''/d'' False)
            None
            (Some [(''~/.f'', Extended (no_options\<lparr>opt_path := Some ''f'', opt_if := Text ''false''\<rparr>))])
            (home_fs [([''h'', ''.f''], Symlink ''/old'')])) = True"
  by code_simp

text \<open>
  Claim C8. The comparison of line 496 reads the inode numbers only, never the device.
  In the link step with type \<^verbatim>\<open>hardlink\<close>, where the link path exists and is not a
  symbolic link and the target exists: a link path and a target with the same inode
  number on different devices, two files whose device and inode identities differ, are
  reported as a success, and the file system is returned as it was.
\<close>

theorem hardlink_check_ignores_device:
  assumes "linkType = ''hardlink''"
    and "\<not> (dryRun ctx \<and> didDelete)"
    and "Link_lexists e w linkName" and "\<not> Link_isLink e w linkName"
    and "Link_exists e w (absolute_target e ctx canonicalPath target)"
    and "statSync e w (link_path e linkName) = Some a"
    and "statSync e w (absolute_target e ctx canonicalPath target) = Some b"
    and "ino a = ino b" and "dev a \<noteq> dev b"
  shows "Link_link e ctx target linkName relative canonicalPath ignoreMissing linkType didDelete w
           = (True, w)"
  using assms by (auto simp: Link_link_unfold)

theorem hardlink_check_ignores_device_witness:
  "Link_lexists demo_posix (home_fs [([''h'', ''.f''], File 2 7)]) ''~/.f''
   \<and> \<not> Link_isLink demo_posix (home_fs [([''h'', ''.f''], File 2 7)]) ''~/.f''
   \<and> statSync demo_posix (home_fs [([''h'', ''.f''], File 2 7)]) (link_path demo_posix ''~/.f'')
       = Some (File 2 7)
   \<and> statSync demo_posix (home_fs [([''h'', ''.f''], File 2 7)])
         (absolute_target demo_posix (context_at ''/d'' False) True ''f'')
       = Some (File 1 7)
   \<and> dev (File 2 7) \<noteq> dev (File 1 7)
   \<and> Link_link demo_posix (context_at ''/d'' False) ''f'' ''~/.f'' False True False ''hardlink'' False
         (home_fs [([''h'', ''.f''], File 2 7)])
       = (True, home_fs [([''h'', ''.f''], File 2 7)])
   \<and> fst (Link_processLinks demo_posix (context_at ''/d'' False) None
            (Some [(''~/.f'', Extended (no_options\<lparr>opt_path := Some ''f'',
                                                    opt_type := Some ''hardlink''\<rparr>))])
            (home_fs [([''h'', ''.f''], File 2 7)])) = True
   \<and> journal (snd (Link_processLinks demo_posix (context_at ''/d'' False) None
            (Some [(''~/.f'', Extended (no_options\<lparr>opt_path := Some ''f'',
                                                    opt_type := Some ''hardlink''\<rparr>))])
            (home_fs [([''h'', ''.f''], File 2 7)]))) = []"
proof -
  let ?w = "home_fs [([''h'', ''.f''], File 2 7)]"
  let ?c = "context_at ''/d'' False"
  have g: "\<not> (dryRun ?c \<and> False)" by simp
  have l: "Link_lexists demo_posix ?w ''~/.f''" by code_simp
  have n: "\<not> Link_isLink demo_posix ?w ''~/.f''" by code_simp
  have x: "Link_exists demo_posix ?w (absolute_target demo_posix ?c True ''f'')" by code_simp
  have a: "statSync demo_posix ?w (link_path demo_posix ''~/.f'') = Some (File 2 7)" by code_simp
  have b: "statSync demo_posix ?w (absolute_target demo_posix ?c True ''f'') = Some (File 1 7)"
    by code_simp
  have i: "ino (File 2 7) = ino (File 1 7)" and d: "dev (File 2 7) \<noteq> dev (File 1 7)"
    by simp_all
  have run: "fst (Link_processLinks demo_posix ?c None
            (Some [(''~/.f'', Extended (no_options\<lparr>opt_path := Some ''f'',
                                                    opt_type := Some ''hardlink''\<rparr>))]) ?w) = True"
    by code_simp
  have quiet: "journal (snd (Link_processLinks demo_posix ?c None
            (Some [(''~/.f'', Extended (no_options\<lparr>opt_path := Some ''f'',
                                                    opt_type := Some ''hardlink''\<rparr>))]) ?w)) = []"
    by code_simp
  show ?thesis
    using l n a b d run quiet
      hardlink_check_ignores_device[OF refl g l n x a b i d, of False False]
    by simp
qed

text \<open>
  Claim C5, as amended. In a real run of the delete step, when the same-file safety
  check does not fire, the resolved link path names the same directory entry as the link
  path and has nothing left to expand, and the entry is not write-protected: something
  is removed if and only if (a) the link path is a symbolic link whose recorded target
  differs from the desired one, or (b) the link path exists, is not a symbolic link, and
  \<^verbatim>\<open>force\<close> is set; after a removal nothing is left at the link path, and without one
  the file system is returned as it was.
\<close>

theorem removal_when_warranted:
  assumes real: "\<not> dryRun ctx"
    and guard: "\<not> (Link_exists e w path \<and> \<not> Link_isLink e w path \<and>
                  path_resolve e (link_path e path)
                    = path_resolve e (absolute_target e ctx canonicalPath target))"
    and same_entry: "lookup_key e (link_path e path) = lookup_key e (Link_expandPath e path)"
    and expanded: "Link_expandPath e (link_path e path) = link_path e path"
    and writable: "\<not> wprot w (lookup_key e (link_path e path))"
  shows "fst (fst (Link_delete e ctx target path relative canonicalPath force w)) =
           ((Link_isLink e w path \<and>
             Link_linkTarget e w path \<noteq> Some (desired_target e ctx relative canonicalPath target path)) \<or>
            (Link_lexists e w path \<and> \<not> Link_isLink e w path \<and> force))
       \<and> (fst (fst (Link_delete e ctx target path relative canonicalPath force w)) \<longrightarrow>
            \<not> Link_lexists e (snd (Link_delete e ctx target path relative canonicalPath force w)) path)
       \<and> (\<not> fst (fst (Link_delete e ctx target path relative canonicalPath force w)) \<longrightarrow>
            snd (Link_delete e ctx target path relative canonicalPath force w) = w)"
proof -
  let ?full = "link_path e path"
  let ?k = "lookup_key e ?full"
  have link_full: "Link_isLink e w ?full = Link_isLink e w path"
    by (simp add: Link_isLink_def lstatSync_def expanded same_entry)
  have lex: "Link_lexists e w path = (nodes w ?k \<noteq> None)"
    by (simp add: Link_lexists_def lstatSync_def same_entry)
  have lex_after: "Link_lexists e w' path = (nodes w' ?k \<noteq> None)" for w'
    by (simp add: Link_lexists_def lstatSync_def same_entry)
  show ?thesis
  proof (cases "Link_isLink e w path")
    case True
    then obtain t where t: "nodes w ?k = Some (Symlink t)"
      by (auto simp: isLink_iff lstatSync_def same_entry)
    have un: "unlinkSync e ?full w =
                (True, (record_op (Unlink ?full) w)\<lparr>nodes := (nodes w)(?k := None)\<rparr>)"
      using t writable by (simp add: unlinkSync_def Let_def)
    show ?thesis
      using True guard real link_full un
      by (auto simp: Link_delete_unfold lex_after)
  next
    case False
    note notlink = False
    show ?thesis
    proof (cases "Link_lexists e w path \<and> force")
      case False
      then show ?thesis
        using notlink guard real link_full by (auto simp: Link_delete_unfold)
    next
      case True
      then obtain nd where nd: "nodes w ?k = Some nd"
        using lex by auto
      have nsl: "\<not> isSymbolicLink nd"
        using notlink nd by (simp add: Link_isLink_def lstatSync_def same_entry)
      have st: "statSync e w ?full = Some nd"
        using nd nsl by (intro statSync_entry) (simp_all add: lstatSync_def)
      have rm: "rmSync e ?full w = (True, (record_op (Rm ?full) w)\<lparr>nodes := (nodes w)(?k := None)\<rparr>)"
        if "\<not> isDirectory nd"
        using nd writable that by (simp add: rmSync_def Let_def)
      have rmr: "rmSync_recursive_force e ?full w =
          (True, (record_op (RmTree ?full) w)\<lparr>nodes := (\<lambda>q. if take (length ?k) q = ?k then None else nodes w q)\<rparr>)"
        using writable by (simp add: rmSync_recursive_force_def Let_def)
      show ?thesis
        using True notlink guard real link_full st rm rmr
        by (cases "isDirectory nd") (auto simp: Link_delete_unfold lex_after)
    qed
  qed
qed

theorem removal_when_warranted_witness:
  "\<not> dryRun (context_at ''/d'' False)
   \<and> Link_isLink demo_posix (home_fs [([''h'', ''.f''], Symlink ''/old'')]) ''~/.f''
   \<and> fst (fst (Link_delete demo_posix (context_at ''/d'' False) ''f'' ''~/.f'' False True False
                  (home_fs [([''h'', ''.f''], Symlink ''/old'')])))
   \<and> \<not> Link_lexists demo_posix
          (snd (Link_delete demo_posix (context_at ''/d'' False) ''f'' ''~/.f'' False True False
                  (home_fs [([''h'', ''.f''], Symlink ''/old'')]))) ''~/.f''"
proof -
  let ?w = "home_fs [([''h'', ''.f''], Symlink ''/old'')]"
  let ?c = "context_at ''/d'' False"
  have real: "\<not> dryRun ?c" by code_simp
  have guard: "\<not> (Link_exists demo_posix ?w ''~/.f'' \<and> \<not> Link_isLink demo_posix ?w ''~/.f'' \<and>
                  path_resolve demo_posix (link_path demo_posix ''~/.f'')
                    = path_resolve demo_posix (absolute_target demo_posix ?c True ''f''))"
    by code_simp
  have same_entry: "lookup_key demo_posix (link_path demo_posix ''~/.f'')
                      = lookup_key demo_posix (Link_expandPath demo_posix ''~/.f'')"
    by code_simp
  have expanded: "Link_expandPath demo_posix (link_path demo_posix ''~/.f'') = link_path demo_posix ''~/.f''"
    by code_simp
  have writable: "\<not> wprot ?w (lookup_key demo_posix (link_path demo_posix ''~/.f''))"
    by code_simp
  have l: "Link_isLink demo_posix ?w ''~/.f''" by code_simp
  have stale: "Link_linkTarget demo_posix ?w ''~/.f'' \<noteq>
                 Some (desired_target demo_posix ?c False True ''f'' ''~/.f'')"
    by code_simp
  show ?thesis
    using real l stale
      removal_when_warranted[OF real guard same_entry expanded writable, of False False]
    by simp
qed

text \<open>
  Claim C5 as stated fails: the link path \<^verbatim>\<open>/d/f\<close> exists, is not a symbolic link, and
  \<^verbatim>\<open>force\<close> is set, so (b) holds; but it is the target itself, the same-file check of
  lines 359--367 fires, and nothing is removed.
\<close>

theorem same_file_never_removed:
  "\<not> dryRun (context_at ''/d'' False)
   \<and> Link_lexists demo_posix (home_fs []) ''/d/f''
   \<and> \<not> Link_isLink demo_posix (home_fs []) ''/d/f''
   \<and> fst (Link_delete demo_posix (context_at ''/d'' False) ''f'' ''/d/f'' False True True (home_fs []))
       = (False, False)
   \<and> journal (snd (Link_delete demo_posix (context_at ''/d'' False) ''f'' ''/d/f'' False True True
                      (home_fs []))) = []
   \<and> Link_lexists demo_posix
        (snd (Link_delete demo_posix (context_at ''/d'' False) ''f'' ''/d/f'' False True True (home_fs [])))
        ''/d/f''"
  by code_simp

text \<open>
  Claim C9. The matches the glob branch works on are the expansion of the destination
  pattern, in its order, without every path that the expansion of some exclude pattern
  also yields; both expansions go through the same function \<^verbatim>\<open>_glob\<close>, and paths are
  compared for equality. So no excluded path is among the matches that are linked.
\<close>

theorem excluded_matches_subtracted:
  "Link_createGlobResults e w pattern excludePatterns =
     filter (\<lambda>item. item \<notin> (\<Union>expat \<in> set excludePatterns. set (Link_glob e w expat)))
       (Link_glob e w pattern)
   \<and> set (Link_createGlobResults e w pattern excludePatterns) =
       set (Link_glob e w pattern) - (\<Union>expat \<in> set excludePatterns. set (Link_glob e w expat))"
  by (auto simp: Link_createGlobResults_def Let_def collect_excluded_set)

theorem excluded_matches_subtracted_witness:
  "Link_glob demo_posix (home_fs []) ''config/*'' = [''config/a'', ''config/private1'', ''config/b'']
   \<and> Link_glob demo_posix (home_fs []) ''config/private*'' = [''config/private1'']
   \<and> Link_createGlobResults demo_posix (home_fs []) ''config/*'' [''config/private*'']
       = [''config/a'', ''config/b'']"
proof -
  have g1: "Link_glob demo_posix (home_fs []) ''config/*''
              = [''config/a'', ''config/private1'', ''config/b'']"
    by code_simp
  have g2: "Link_glob demo_posix (home_fs []) ''config/private*'' = [''config/private1'']"
    by code_simp
  show ?thesis
    using excluded_matches_subtracted[of demo_posix "home_fs []" "''config/*''" "[''config/private*'']"]
    by (simp add: g1 g2)
qed




text \<open>
  Claim C1. A second run on the file system the first run left does not always succeed
  without a mutation. With \<^verbatim>\<open>ignore-missing\<close> and the target \<^verbatim>\<open>/d/g\<close> missing, the first
  run creates the symbolic link \<^verbatim>\<open>/h/.g\<close> and reports success; the second run finds
  the link path in place, reaches the test of line 464, which does not look at
  \<^verbatim>\<open>ignore-missing\<close>, and reports failure. With type \<^verbatim>\<open>hardlink\<close> and \<^verbatim>\<open>force\<close>, the
  first run creates the hard link \<^verbatim>\<open>/h/.f\<close>; the second run removes it and creates it
  again, two mutating calls.
\<close>

theorem second_run_fails_or_mutates:
  "\<not> Link_exists demo_posix (home_fs []) ''/d/g''
   \<and> fst (Link_processLinks demo_posix (context_at ''/d'' False) None
            (Some [(''~/.g'', Extended (no_options\<lparr>opt_path := Some ''g'',
                                                    opt_ignore_missing := Some True\<rparr>))])
            (home_fs [])) = True
   \<and> journal (snd (Link_processLinks demo_posix (context_at ''/d'' False) None
            (Some [(''~/.g'', Extended (no_options\<lparr>opt_path := Some ''g'',
                                                    opt_ignore_missing := Some True\<rparr>))])
            (home_fs []))) = [MkSymlink ''/d/g'' ''/h/.g'']
   \<and> fst (Link_processLinks demo_posix (context_at ''/d'' False) None
            (Some [(''~/.g'', Extended (no_options\<lparr>opt_path := Some ''g'',
                                                    opt_ignore_missing := Some True\<rparr>))])
            (snd (Link_processLinks demo_posix (context_at ''/d'' False) None
                    (Some [(''~/.g'', Extended (no_options\<lparr>opt_path := Some ''g'',
                                                            opt_ignore_missing := Some True\<rparr>))])
                    (home_fs [])))) = False
   \<and> fst (Link_processLinks demo_posix (context_at ''/d'' False) None
            (Some [(''~/.f'', Extended (no_options\<lparr>opt_path := Some ''f'',
                                                    opt_type := Some ''hardlink'',
                                                    opt_force := Some True\<rparr>))])
            (home_fs [])) = True
   \<and> journal (snd (Link_processLinks demo_posix (context_at ''/d'' False) None
            (Some [(''~/.f'', Extended (no_options\<lparr>opt_path := Some ''f'',
                                                    opt_type := Some ''hardlink'',
                                                    opt_force := Some True\<rparr>))])
            (home_fs []))) = [MkLink ''/d/f'' ''/h/.f'']
   \<and> journal (snd (Link_processLinks demo_posix (context_at ''/d'' False) None
            (Some [(''~/.f'', Extended (no_options\<lparr>opt_path := Some ''f'',
                                                    opt_type := Some ''hardlink'',
                                                    opt_force := Some True\<rparr>))])
            (snd (Link_processLinks demo_posix (context_at ''/d'' False) None
                    (Some [(''~/.f'', Extended (no_options\<lparr>opt_path := Some ''f'',
                                                            opt_type := Some ''hardlink'',
                                                            opt_force := Some True\<rparr>))])
                    (home_fs [])))))
       = [MkLink ''/d/f'' ''/h/.f'', Rm ''/h/.f'', MkLink ''/d/f'' ''/h/.f'']"
  by code_simp

text \<open>
  Claim C4. \<^verbatim>\<open>baseDirectory(true)\<close> applies \<^verbatim>\<open>path.resolve\<close>, which is lexical: where
  the base directory \<^verbatim>\<open>/h/dot\<close> is a symbolic link to \<^verbatim>\<open>/data/dot\<close>, it returns
  \<^verbatim>\<open>/h/dot\<close>, the path of the link, and not the path the link resolves to.
\<close>

theorem baseDirectory_keeps_symlink:
  "realpath demo_posix
     (fs_of [([''h''], Dir 1 3), ([''h'', ''dot''], Symlink ''/data/dot''),
             ([''data''], Dir 1 4), ([''data'', ''dot''], Dir 1 5)]) ''/h/dot''
     = Some [''data'', ''dot'']
   \<and> baseDirectory demo_posix (context_at ''/h/dot'' False) True = ''/h/dot''
   \<and> lookup_key demo_posix (baseDirectory demo_posix (context_at ''/h/dot'' False) True)
       = [''h'', ''dot'']
   \<and> baseDirectory demo_posix (context_at ''/h/dot'' False) False = ''/h/dot''"
  by code_simp

end
